theory Spec2Isabelle
  imports Complex_Main
begin

section \<open>JavaScript values\<close>

text \<open>
  The values the gateway's error module and its command line client compute with.
  A number of the language is a double. \<open>Num i\<close> names the double nearest to the integer
  \<open>i\<close> and \<open>Frac r\<close> the double nearest to the rational \<open>r\<close>, so that every finite double
  has a name; \<open>number_of\<close> below picks one name for each, \<open>Num\<close> for an integer and \<open>Frac\<close>
  for any other. The two zeros are one value here: both are falsy and both print as
  \<open>0\<close>, and the program does nothing else with them. Strings are sequences of 8-bit
  units (ASCII text, or the UTF-8 bytes a \<open>Buffer\<close> holds); an object is a plain data
  object, its list of own properties in insertion order.
\<close>

datatype jsval =
    Undefined
  | Null
  | Boolean bool
  | Num int
  | Frac rat
  | PosInfinity
  | NegInfinity
  | NaN
  | Str string
  | Obj "(string \<times> jsval) list"

type_synonym object = "(string \<times> jsval) list"

datatype error =
    TypeError
  | SystemError
  | DigestError
  | SignError
  | Pending

text \<open>
  \<open>TypeError\<close> is the exception the runtime raises when a property of \<open>undefined\<close> is read,
  a value that is not a function is called, or an object cannot be converted to a
  primitive. \<open>SystemError\<close> is a failed file read, \<open>DigestError\<close> the hash provider's
  refusal of an algorithm name, \<open>SignError\<close> a failure inside the signature class.
  \<open>Pending\<close> stands for a promise that never settles.
\<close>

subsection \<open>Characters and decimal numerals\<close>

definition unit_of :: "char \<Rightarrow> nat" where
  "unit_of c = of_char c"

definition is_digit :: "char \<Rightarrow> bool" where
  "is_digit c = (48 \<le> unit_of c \<and> unit_of c \<le> 57)"

definition parse_dec :: "string \<Rightarrow> nat" where
  "parse_dec s = foldl (\<lambda>a c. 10 * a + (unit_of c - 48)) 0 s"

text \<open>The printable ASCII characters other than the space.\<close>

definition graphic :: "char \<Rightarrow> bool" where
  "graphic c = (32 < unit_of c \<and> unit_of c < 127)"

definition digit_char :: "nat \<Rightarrow> char" where
  "digit_char d = char_of (48 + d)"

fun dec_nat :: "nat \<Rightarrow> string" where
  "dec_nat n = (if n < 10 then [digit_char n] else dec_nat (n div 10) @ [digit_char (n mod 10)])"

declare dec_nat.simps [simp del]

definition dec_int :: "int \<Rightarrow> string" where
  "dec_int i = (if i < 0 then CHR ''-'' # dec_nat (nat (- i)) else dec_nat (nat i))"

subsection \<open>Doubles\<close>

text \<open>
  \<open>power_of b e\<close> is \<open>b\<^sup>e\<close> for an integer exponent, and \<open>floor_log b v\<close>, for a positive
  \<open>v\<close>, the exponent \<open>e\<close> with \<open>b\<^sup>e \<le> v < b\<^sup>e\<^sup>+\<^sup>1\<close>: the difference between the numbers of
  digits of numerator and denominator, or one less.
\<close>

definition power_of :: "nat \<Rightarrow> int \<Rightarrow> rat" where
  "power_of b e = (if 0 \<le> e then of_nat b ^ nat e else 1 / of_nat b ^ nat (- e))"

function digits :: "nat \<Rightarrow> nat \<Rightarrow> nat" where
  "digits b n = (if n = 0 \<or> b < 2 then 0 else Suc (digits b (n div b)))"
  by pat_completeness auto
termination
  by (relation "measure snd") auto

declare digits.simps [simp del]

definition floor_log :: "nat \<Rightarrow> rat \<Rightarrow> int" where
  "floor_log b v =
     (let (p, q) = quotient_of v;
          e = int (digits b (nat p)) - int (digits b (nat q))
      in if power_of b e \<le> v then e else e - 1)"

definition round_half_even :: "rat \<Rightarrow> int" where
  "round_half_even q =
     (let f = \<lfloor>q\<rfloor>; r = q - of_int f
      in if r < 1 / 2 then f else if 1 / 2 < r then f + 1 else if even f then f else f + 1)"

text \<open>
  The double nearest to a positive rational, ties going to the even significand: 53
  significant bits, no exponent below \<open>-1074\<close>, and no value from \<open>2\<^sup>1\<^sup>0\<^sup>2\<^sup>4\<close> on (\<open>None\<close>: the
  number is infinite). The result \<open>0\<close> is an underflow.
\<close>

definition double_of :: "rat \<Rightarrow> rat option" where
  "double_of v =
     (let e = floor_log 2 v;
          p = max (e - 52) (- 1074);
          d = of_int (round_half_even (v / power_of 2 p)) * power_of 2 p
      in if power_of 2 1024 \<le> d then None else Some d)"

text \<open>
  The number a rational denotes. An integer of magnitude at most \<open>2\<^sup>5\<^sup>3\<close> is a double
  itself.
\<close>

definition number_of :: "rat \<Rightarrow> jsval" where
  "number_of v =
     (if v = of_int \<lfloor>v\<rfloor> \<and> \<bar>v\<bar> \<le> 2 ^ 53 then Num \<lfloor>v\<rfloor>
      else
        (case double_of \<bar>v\<bar> of
           None \<Rightarrow> if v < 0 then NegInfinity else PosInfinity
         | Some d \<Rightarrow>
             (let x = (if v < 0 then - d else d)
              in if x = of_int \<lfloor>x\<rfloor> then Num \<lfloor>x\<rfloor> else Frac x)))"

subsection \<open>Printing a number\<close>

text \<open>
  \<open>Number::toString\<close> in radix 10. For a positive double \<open>x\<close> it takes the least number
  \<open>k\<close> of digits for which some \<open>s\<close> of \<open>k\<close> digits and some \<open>n\<close> make \<open>s \<times> 10\<^sup>n\<^sup>-\<^sup>k\<close> a
  rational that still denotes \<open>x\<close>, and among several such \<open>s\<close> the one closest to \<open>x\<close>.
  With \<open>k\<close> fixed, only the two neighbours of \<open>x\<close> among the numbers of \<open>k\<close> digits can be
  that closest one. Seventeen digits are always enough, so the search stops there.
\<close>

definition candidates :: "rat \<Rightarrow> nat \<Rightarrow> (nat \<times> int) list" where
  "candidates x k =
     (let n = floor_log 10 x + 1;
          lo = nat \<lfloor>x / power_of 10 (n - int k)\<rfloor>;
          hi = lo + 1
      in [(lo, n), if hi < 10 ^ k then (hi, n) else (10 ^ (k - 1), n + 1)])"

definition denoted :: "nat \<Rightarrow> nat \<times> int \<Rightarrow> rat" where
  "denoted k c = of_nat (fst c) * power_of 10 (snd c - int k)"

definition closer :: "rat \<Rightarrow> nat \<Rightarrow> nat \<times> int \<Rightarrow> nat \<times> int \<Rightarrow> nat \<times> int" where
  "closer x k c1 c2 =
     (let d1 = \<bar>denoted k c1 - x\<bar>; d2 = \<bar>denoted k c2 - x\<bar>
      in if d1 < d2 then c1 else if d2 < d1 then c2 else if even (fst c1) then c1 else c2)"

fun shortest :: "rat \<Rightarrow> nat list \<Rightarrow> nat \<times> int" where
  "shortest x [] = hd (candidates x 17)"
| "shortest x (k # ks) =
     (case filter (\<lambda>c. double_of (denoted k c) = Some x) (candidates x k) of
        [] \<Rightarrow> shortest x ks
      | [c] \<Rightarrow> c
      | c1 # c2 # cs \<Rightarrow> closer x k c1 c2)"

text \<open>The text for the digits \<open>s\<close> and the exponent \<open>n\<close>: plain digits, a fraction, or the
  exponent form outside \<open>10\<^sup>-\<^sup>6 \<dots> 10\<^sup>2\<^sup>1\<close>.\<close>

definition format_number :: "nat \<Rightarrow> int \<Rightarrow> string" where
  "format_number s n =
     (let ds = dec_nat s; k = int (length ds) in
      if k \<le> n \<and> n \<le> 21 then ds @ replicate (nat (n - k)) (CHR ''0'')
      else if 0 < n \<and> n \<le> 21 then take (nat n) ds @ ''.'' @ drop (nat n) ds
      else if - 6 < n \<and> n \<le> 0 then ''0.'' @ replicate (nat (- n)) (CHR ''0'') @ ds
      else
        (let ex = (if 0 \<le> n - 1 then ''+'' else ''-'') @ dec_nat (nat \<bar>n - 1\<bar>) in
         if k = 1 then ds @ ''e'' @ ex
         else take 1 ds @ ''.'' @ drop 1 ds @ ''e'' @ ex))"

text \<open>
  The text of the number a rational denotes. For an integer of magnitude at most
  \<open>2\<^sup>5\<^sup>3\<close> the shortest digits are all its digits.
\<close>

definition number_text :: "rat \<Rightarrow> string" where
  "number_text v =
     (if v = of_int \<lfloor>v\<rfloor> \<and> \<bar>v\<bar> \<le> 2 ^ 53 then dec_int \<lfloor>v\<rfloor>
      else
        (case double_of \<bar>v\<bar> of
           None \<Rightarrow> if v < 0 then ''-Infinity'' else ''Infinity''
         | Some d \<Rightarrow>
             if d = 0 then ''0''
             else (if v < 0 then ''-'' else [])
                    @ case_prod format_number (shortest d [1 ..< 18])))"

subsection \<open>Reading a number from a string\<close>

text \<open>
  The white space and line terminators of the language, as UTF-8: TAB, LF, VT, FF, CR,
  SP, U+00A0, U+1680, U+2000 to U+200A, U+2028, U+2029, U+202F, U+205F, U+3000 and
  U+FEFF (the space separators are those of Unicode 6.3 and later, which no longer
  count U+180E among them).
\<close>

definition StrWhiteSpaceChar :: "string list" where
  "StrWhiteSpaceChar =
     [[CHR 0x09], [CHR 0x0A], [CHR 0x0B], [CHR 0x0C], [CHR 0x0D], [CHR 0x20],
      [CHR 0xC2, CHR 0xA0], [CHR 0xE1, CHR 0x9A, CHR 0x80],
      [CHR 0xE2, CHR 0x80, CHR 0x80], [CHR 0xE2, CHR 0x80, CHR 0x81],
      [CHR 0xE2, CHR 0x80, CHR 0x82], [CHR 0xE2, CHR 0x80, CHR 0x83],
      [CHR 0xE2, CHR 0x80, CHR 0x84], [CHR 0xE2, CHR 0x80, CHR 0x85],
      [CHR 0xE2, CHR 0x80, CHR 0x86], [CHR 0xE2, CHR 0x80, CHR 0x87],
      [CHR 0xE2, CHR 0x80, CHR 0x88], [CHR 0xE2, CHR 0x80, CHR 0x89],
      [CHR 0xE2, CHR 0x80, CHR 0x8A], [CHR 0xE2, CHR 0x80, CHR 0xA8],
      [CHR 0xE2, CHR 0x80, CHR 0xA9], [CHR 0xE2, CHR 0x80, CHR 0xAF],
      [CHR 0xE2, CHR 0x81, CHR 0x9F], [CHR 0xE3, CHR 0x80, CHR 0x80],
      [CHR 0xEF, CHR 0xBB, CHR 0xBF]]"

text \<open>Dropping from the front of a string every leading occurrence of one of the given
  sequences.\<close>

function strip :: "string list \<Rightarrow> string \<Rightarrow> string" where
  "strip ws s =
     (case filter (\<lambda>w. w \<noteq> [] \<and> take (length w) s = w) ws of
        [] \<Rightarrow> s
      | w # others \<Rightarrow> strip ws (drop (length w) s))"
  by pat_completeness auto
termination
proof (relation "measure (\<lambda>(ws, s). length s)")
  show "wf (measure (\<lambda>(ws, s). length s))" by simp
next
  fix ws :: "string list" and s w :: string and others
  assume "filter (\<lambda>w. w \<noteq> [] \<and> take (length w) s = w) ws = w # others"
  then have "w \<noteq> [] \<and> take (length w) s = w"
    by (metis (mono_tags, lifting) filter_eq_ConsD)
  then have w: "w \<noteq> []" "take (length w) s = w"
    by simp_all
  have "length (take (length w) s) = length w"
    using w(2) by simp
  then have "length w \<le> length s"
    by simp
  with w(1) show "((ws, drop (length w) s), (ws, s)) \<in> measure (\<lambda>(ws, s). length s)"
    by (cases w) simp_all
qed

declare strip.simps [simp del]

definition trim :: "string \<Rightarrow> string" where
  "trim s = rev (strip (map rev StrWhiteSpaceChar) (rev (strip StrWhiteSpaceChar s)))"

text \<open>The literals with a radix prefix: \<open>0x\<close>, \<open>0o\<close> and \<open>0b\<close>, in either case, followed by
  at least one digit of the radix and nothing else.\<close>

definition digit_value :: "char \<Rightarrow> nat" where
  "digit_value c =
     (let u = unit_of c in
      if 48 \<le> u \<and> u \<le> 57 then u - 48
      else if 97 \<le> u \<and> u \<le> 102 then u - 87
      else if 65 \<le> u \<and> u \<le> 70 then u - 55
      else 16)"

definition parse_radix :: "nat \<Rightarrow> string \<Rightarrow> nat option" where
  "parse_radix b ds =
     (if ds \<noteq> [] \<and> list_all (\<lambda>c. digit_value c < b) ds
      then Some (foldl (\<lambda>a c. b * a + digit_value c) 0 ds)
      else None)"

definition radix_literal :: "string \<Rightarrow> nat option" where
  "radix_literal s =
     (case s of
        z # x # ds \<Rightarrow>
          if z \<noteq> CHR ''0'' then None
          else if x = CHR ''x'' \<or> x = CHR ''X'' then parse_radix 16 ds
          else if x = CHR ''o'' \<or> x = CHR ''O'' then parse_radix 8 ds
          else if x = CHR ''b'' \<or> x = CHR ''B'' then parse_radix 2 ds
          else None
      | _ \<Rightarrow> None)"

text \<open>
  The decimal literals: digits with an optional fraction, or a fraction alone, and an
  optional exponent part; the literal has to be the whole string.
\<close>

definition signed_integer :: "string \<Rightarrow> int option" where
  "signed_integer s =
     (let (neg, ds) = (case s of
                         c # cs \<Rightarrow> if c = CHR ''-'' then (True, cs)
                                   else if c = CHR ''+'' then (False, cs) else (False, s)
                       | [] \<Rightarrow> (False, s))
      in if ds \<noteq> [] \<and> list_all is_digit ds
         then Some (if neg then - int (parse_dec ds) else int (parse_dec ds))
         else None)"

definition exponent_part :: "string \<Rightarrow> int option" where
  "exponent_part s =
     (case s of
        [] \<Rightarrow> Some 0
      | c # cs \<Rightarrow> if c = CHR ''e'' \<or> c = CHR ''E'' then signed_integer cs else None)"

definition decimal_literal :: "string \<Rightarrow> rat option" where
  "decimal_literal s =
     (let ip = takeWhile is_digit s;
          r = dropWhile is_digit s;
          (fp, r') = (case r of
                        c # cs \<Rightarrow> if c = CHR ''.'' then (takeWhile is_digit cs, dropWhile is_digit cs)
                                  else ([], r)
                      | [] \<Rightarrow> ([], r))
      in if ip = [] \<and> fp = [] then None
         else (case exponent_part r' of
                 None \<Rightarrow> None
               | Some e \<Rightarrow> Some (of_nat (parse_dec (ip @ fp)) * power_of 10 (e - int (length fp)))))"

definition unsigned_literal :: "bool \<Rightarrow> string \<Rightarrow> jsval" where
  "unsigned_literal neg s =
     (if s = ''Infinity'' then (if neg then NegInfinity else PosInfinity)
      else (case decimal_literal s of
              None \<Rightarrow> NaN
            | Some v \<Rightarrow> number_of (if neg then - v else v)))"

text \<open>
  \<open>StringToNumber\<close>: white space around the literal is ignored, the empty string is
  \<open>0\<close>, and a string that is no numeric literal is \<open>NaN\<close>.
\<close>

definition StringToNumber :: "string \<Rightarrow> jsval" where
  "StringToNumber s =
     (let t = trim s in
      if t = [] then Num 0
      else (case radix_literal t of
              Some n \<Rightarrow> number_of (of_nat n)
            | None \<Rightarrow>
                (case t of
                   c # cs \<Rightarrow> if c = CHR ''-'' then unsigned_literal True cs
                             else if c = CHR ''+'' then unsigned_literal False cs
                             else unsigned_literal False t
                 | [] \<Rightarrow> NaN)))"

subsection \<open>Property access\<close>

text \<open>
  Only own properties are modelled. The keys the error module reads are decimal numerals
  and upper-case names, and those the client reads are header names; none of them names
  a property inherited from \<open>Object.prototype\<close>.
\<close>

definition js_get :: "object \<Rightarrow> string \<Rightarrow> jsval" where
  "js_get obj k = (case map_of obj k of None \<Rightarrow> Undefined | Some v \<Rightarrow> v)"

text \<open>
  An array index is a canonical decimal numeral below \<open>2\<^sup>3\<^sup>2 - 1\<close>. The own keys of an
  object are its array indices in ascending order, followed by its other keys in the
  order of their creation. So a property that is set keeps its place when it exists
  already; a new array index is put in its place among the indices, and any other new
  key goes to the end.
\<close>

definition array_index :: "string \<Rightarrow> bool" where
  "array_index k =
     (k \<noteq> [] \<and> list_all is_digit k \<and> (k = ''0'' \<or> hd k \<noteq> CHR ''0'')
      \<and> length k \<le> 10 \<and> parse_dec k < 4294967295)"

fun insert_index :: "object \<Rightarrow> string \<Rightarrow> jsval \<Rightarrow> object" where
  "insert_index [] k v = [(k, v)]"
| "insert_index ((k', v') # ps) k v =
     (if array_index k' \<and> parse_dec k' < parse_dec k
      then (k', v') # insert_index ps k v
      else (k, v) # (k', v') # ps)"

definition js_set :: "object \<Rightarrow> string \<Rightarrow> jsval \<Rightarrow> object" where
  "js_set obj k v =
     (if k \<in> fst ` set obj then map (\<lambda>(k', v'). if k' = k then (k', v) else (k', v')) obj
      else if array_index k then insert_index obj k v
      else obj @ [(k, v)])"

definition Object_keys :: "object \<Rightarrow> string list" where
  "Object_keys obj = map fst obj"

text \<open>\<open>Object.assign(target, source)\<close>: every own property of the source is set on the target.\<close>

definition Object_assign :: "object \<Rightarrow> object \<Rightarrow> object" where
  "Object_assign target source = fold (\<lambda>(k, v) t. js_set t k v) source target"

subsection \<open>Truthiness, \<open>||\<close>, \<open>String\<close> and \<open>Number\<close>\<close>

fun truthy :: "jsval \<Rightarrow> bool" where
  "truthy Undefined = False"
| "truthy Null = False"
| "truthy (Boolean b) = b"
| "truthy (Num n) = (n \<noteq> 0)"
| "truthy (Frac r) = (number_of r \<noteq> Num 0)"
| "truthy PosInfinity = True"
| "truthy NegInfinity = True"
| "truthy NaN = False"
| "truthy (Str s) = (s \<noteq> [])"
| "truthy (Obj ps) = True"

definition js_or :: "jsval \<Rightarrow> jsval \<Rightarrow> jsval" where
  "js_or a b = (if truthy a then a else b)"

text \<open>
  \<open>String(v)\<close> and template-literal interpolation. An object here is a plain data
  object, which prints as \<open>[object Object]\<close>.
\<close>

fun String_js :: "jsval \<Rightarrow> string" where
  "String_js Undefined = ''undefined''"
| "String_js Null = ''null''"
| "String_js (Boolean b) = (if b then ''true'' else ''false'')"
| "String_js (Num n) = number_text (of_int n)"
| "String_js (Frac r) = number_text r"
| "String_js PosInfinity = ''Infinity''"
| "String_js NegInfinity = ''-Infinity''"
| "String_js NaN = ''NaN''"
| "String_js (Str s) = s"
| "String_js (Obj ps) = ''[object Object]''"

text \<open>
  \<open>Number(v)\<close>. The result is a number under the one name \<open>number_of\<close> gives it. An
  object is converted through its \<open>valueOf\<close> and \<open>toString\<close>: the inherited ones make a
  plain object \<open>NaN\<close> (its text \<open>[object Object]\<close> is no numeral); an own \<open>toString\<close>
  property, which in these values is never a function, leaves no way to a primitive,
  and a \<open>TypeError\<close> is raised.
\<close>

fun Number :: "jsval \<Rightarrow> error + jsval" where
  "Number Undefined = Inr NaN"
| "Number Null = Inr (Num 0)"
| "Number (Boolean b) = Inr (Num (if b then 1 else 0))"
| "Number (Num n) = Inr (number_of (of_int n))"
| "Number (Frac r) = Inr (number_of r)"
| "Number PosInfinity = Inr PosInfinity"
| "Number NegInfinity = Inr NegInfinity"
| "Number NaN = Inr NaN"
| "Number (Str s) = Inr (StringToNumber s)"
| "Number (Obj ps) = (if ''toString'' \<in> fst ` set ps then Inl TypeError else Inr NaN)"

text \<open>\<open>typeof v === 'number'\<close>, and \<open>Number.isFinite\<close>.\<close>

fun is_number :: "jsval \<Rightarrow> bool" where
  "is_number (Num n) = True"
| "is_number (Frac r) = True"
| "is_number PosInfinity = True"
| "is_number NegInfinity = True"
| "is_number NaN = True"
| "is_number v = False"


fun isFinite :: "jsval \<Rightarrow> bool" where
  "isFinite (Num n) = (number_of (of_int n) \<noteq> PosInfinity \<and> number_of (of_int n) \<noteq> NegInfinity)"
| "isFinite (Frac r) = (number_of r \<noteq> PosInfinity \<and> number_of r \<noteq> NegInfinity)"
| "isFinite v = False"


section \<open>The error module (\<open>lib/errors.js\<close>)\<close>

subsection \<open>The runtime's status table\<close>

text \<open>
  \<open>require('http').STATUS_CODES\<close> belongs to the Node.js runtime, not to the repository.
  These are its entries in the 4.x release line, which the repository's client refers to;
  the keys are listed in ascending order, the order in which \<open>Object.keys\<close> enumerates
  them. Later release lines reword a few phrases and add codes; what is proved of the
  table below needs it to be well formed and to hold the codes 400, 401, 404 and 500.
\<close>

definition http_STATUS_CODES :: object where
  "http_STATUS_CODES = [
    (''100'', Str ''Continue''),
    (''101'', Str ''Switching Protocols''),
    (''102'', Str ''Processing''),
    (''200'', Str ''OK''),
    (''201'', Str ''Created''),
    (''202'', Str ''Accepted''),
    (''203'', Str ''Non-Authoritative Information''),
    (''204'', Str ''No Content''),
    (''205'', Str ''Reset Content''),
    (''206'', Str ''Partial Content''),
    (''207'', Str ''Multi-Status''),
    (''208'', Str ''Already Reported''),
    (''226'', Str ''IM Used''),
    (''300'', Str ''Multiple Choices''),
    (''301'', Str ''Moved Permanently''),
    (''302'', Str ''Found''),
    (''303'', Str ''See Other''),
    (''304'', Str ''Not Modified''),
    (''305'', Str ''Use Proxy''),
    (''307'', Str ''Temporary Redirect''),
    (''308'', Str ''Permanent Redirect''),
    (''400'', Str ''Bad Request''),
    (''401'', Str ''Unauthorized''),
    (''402'', Str ''Payment Required''),
    (''403'', Str ''Forbidden''),
    (''404'', Str ''Not Found''),
    (''405'', Str ''Method Not Allowed''),
    (''406'', Str ''Not Acceptable''),
    (''407'', Str ''Proxy Authentication Required''),
    (''408'', Str ''Request Timeout''),
    (''409'', Str ''Conflict''),
    (''410'', Str ''Gone''),
    (''411'', Str ''Length Required''),
    (''412'', Str ''Precondition Failed''),
    (''413'', Str ''Payload Too Large''),
    (''414'', Str ''URI Too Long''),
    (''415'', Str ''Unsupported Media Type''),
    (''416'', Str ''Range Not Satisfiable''),
    (''417'', Str ''Expectation Failed''),
    (''418'', Str (''I'' @ [CHR 0x27] @ ''m a teapot'')),
    (''421'', Str ''Misdirected Request''),
    (''422'', Str ''Unprocessable Entity''),
    (''423'', Str ''Locked''),
    (''424'', Str ''Failed Dependency''),
    (''425'', Str ''Unordered Collection''),
    (''426'', Str ''Upgrade Required''),
    (''428'', Str ''Precondition Required''),
    (''429'', Str ''Too Many Requests''),
    (''431'', Str ''Request Header Fields Too Large''),
    (''451'', Str ''Unavailable For Legal Reasons''),
    (''500'', Str ''Internal Server Error''),
    (''501'', Str ''Not Implemented''),
    (''502'', Str ''Bad Gateway''),
    (''503'', Str ''Service Unavailable''),
    (''504'', Str ''Gateway Timeout''),
    (''505'', Str ''HTTP Version Not Supported''),
    (''506'', Str ''Variant Also Negotiates''),
    (''507'', Str ''Insufficient Storage''),
    (''508'', Str ''Loop Detected''),
    (''509'', Str ''Bandwidth Limit Exceeded''),
    (''510'', Str ''Not Extended''),
    (''511'', Str ''Network Authentication Required'')]"

subsection \<open>Regular expression replacement and case conversion\<close>

definition is_lower :: "char \<Rightarrow> bool" where
  "is_lower c = (97 \<le> unit_of c \<and> unit_of c \<le> 122)"

definition is_upper :: "char \<Rightarrow> bool" where
  "is_upper c = (65 \<le> unit_of c \<and> unit_of c \<le> 90)"

text \<open>\<open>M_REJECT_CHARS = /[^a-zA-Z0-9_]/g\<close>: the characters the expression matches.\<close>

definition M_REJECT_CHARS :: "char \<Rightarrow> bool" where
  "M_REJECT_CHARS c = (\<not> (is_lower c \<or> is_upper c \<or> is_digit c \<or> c = CHR ''_''))"

definition NOTHING :: string where
  "NOTHING = []"

text \<open>\<open>s.replace(re, sub)\<close> for a global single-character class \<open>re\<close>.\<close>

definition replace :: "string \<Rightarrow> (char \<Rightarrow> bool) \<Rightarrow> string \<Rightarrow> string" where
  "replace s re sub = concat (map (\<lambda>c. if re c then sub else [c]) s)"

text \<open>
  \<open>toUpperCase\<close> on the ASCII letters. The module applies it after every character
  outside \<open>[a-zA-Z0-9_]\<close> has been replaced, so no other character reaches it.
\<close>

definition toUpperCase :: "string \<Rightarrow> string" where
  "toUpperCase s = map (\<lambda>c. if is_lower c then char_of (unit_of c - 32) else c) s"

definition toLowerCase :: "string \<Rightarrow> string" where
  "toLowerCase s = map (\<lambda>c. if is_upper c then char_of (unit_of c + 32) else c) s"

subsection \<open>Reverse-mapping status phrases to codes\<close>

fun forEach :: "('a \<Rightarrow> 's \<Rightarrow> error + 's) \<Rightarrow> 'a list \<Rightarrow> 's \<Rightarrow> error + 's" where
  "forEach f [] s = Inr s"
| "forEach f (x # xs) s = (case f x s of Inl e \<Rightarrow> Inl e | Inr s' \<Rightarrow> forEach f xs s')"

definition reverse_name :: "string \<Rightarrow> string" where
  "reverse_name message = toUpperCase (replace message M_REJECT_CHARS ''_'')"

text \<open>
  The body of the \<open>forEach\<close> callback. \<open>message.replace\<close> raises a \<open>TypeError\<close> when the
  value stored under the key is not a string.
\<close>

definition reverse_entry :: "string \<Rightarrow> object \<Rightarrow> error + object" where
  "reverse_entry code sc =
     (case js_get sc code of
        Str message \<Rightarrow>
          (case Number (Str code) of
             Inl e \<Rightarrow> Inl e
           | Inr n \<Rightarrow> Inr (js_set sc (reverse_name message) n))
      | _ \<Rightarrow> Inl TypeError)"

text \<open>
  Module initialisation: the table is copied, and the keys present before the loop
  starts are visited in order.
\<close>

definition reverse_map :: "object \<Rightarrow> error + object" where
  "reverse_map base =
     (let sc = Object_assign [] base in forEach reverse_entry (Object_keys sc) sc)"

definition STATUS_CODES :: object where
  "STATUS_CODES = (case reverse_map http_STATUS_CODES of Inr sc \<Rightarrow> sc | Inl e \<Rightarrow> [])"

text \<open>
  What the loop relies on. A table is well formed when its keys are array indices in
  ascending order, its values are strings, and the names derived from those strings are
  distinct and are not numerals themselves.
\<close>

definition numeral_key :: "string \<Rightarrow> bool" where
  "numeral_key k = (k \<noteq> [] \<and> list_all is_digit k \<and> length k \<le> 15)"

definition phrase_entries :: "object \<Rightarrow> (string \<times> string) list" where
  "phrase_entries base = [(k, p). (k, Str p) \<leftarrow> base]"

definition reversed_entries :: "object \<Rightarrow> object" where
  "reversed_entries base =
     map (\<lambda>(k, p). (reverse_name p, Num (int (parse_dec k)))) (phrase_entries base)"

definition ascending :: "string list \<Rightarrow> bool" where
  "ascending ks = (list_all array_index ks \<and> sorted_wrt (\<lambda>a b. parse_dec a < parse_dec b) ks)"

definition well_formed :: "object \<Rightarrow> bool" where
  "well_formed base =
     (ascending (map fst base)
      \<and> list_all (\<lambda>(k, v). numeral_key k \<and> (case v of Str p \<Rightarrow> True | _ \<Rightarrow> False)) base
      \<and> distinct (map fst (reversed_entries base))
      \<and> list_all (\<lambda>(nm, n). \<not> numeral_key nm) (reversed_entries base))"

subsection \<open>The error classes\<close>

record js_error =
  code :: jsval
  message :: jsval
  stack :: string

record http_error = js_error +
  name :: string
  metadata :: jsval

text \<open>What \<open>err instanceof HTTPError\<close> distinguishes.\<close>

datatype thrown =
    Error js_error
  | HTTPError_instance http_error

text \<open>
  The constructor. \<open>stk\<close> is the stack trace the runtime captures in \<open>super()\<close>. Reading
  \<open>.replace\<close> of a missing table entry raises a \<open>TypeError\<close>.
\<close>

definition HTTPError :: "string \<Rightarrow> jsval \<Rightarrow> jsval \<Rightarrow> jsval \<Rightarrow> error + http_error" where
  "HTTPError stk code0 message0 metadata0 =
     (case Number code0 of
        Inl e \<Rightarrow> Inl e
      | Inr n \<Rightarrow>
          (let this_code = js_or n (js_get STATUS_CODES ''INTERNAL_SERVER_ERROR'') in
           case js_get STATUS_CODES (String_js this_code) of
             Str phrase \<Rightarrow>
               Inr \<lparr> code = this_code,
                     message = js_or message0 (js_get STATUS_CODES (String_js this_code)),
                     stack = stk,
                     name = replace phrase M_REJECT_CHARS NOTHING,
                     metadata = js_or metadata0 (Obj []) \<rparr>
           | _ \<Rightarrow> Inl TypeError))"

definition toJSON :: "http_error \<Rightarrow> jsval" where
  "toJSON e =
     Obj [(''code'', code e), (''name'', Str (name e)),
          (''message'', message e), (''metadata'', metadata e)]"












subsection \<open>\<open>JSON.stringify(value, null, 2)\<close>\<close>

text \<open>
  The runtime's serialiser, with no replacer and an indentation of two spaces. A
  property whose value is \<open>undefined\<close> is left out of the text, a number that is not
  finite is written as \<open>null\<close>, and serialising \<open>undefined\<close> itself gives no text at all (\<open>None\<close>).
\<close>

definition hex_digit :: "nat \<Rightarrow> char" where
  "hex_digit d = (if d < 10 then char_of (48 + d) else char_of (87 + d))"

definition quote_unit :: "char \<Rightarrow> string" where
  "quote_unit c =
     (let u = unit_of c; bs = CHR 0x5C in
      if u = 8 then [bs, CHR ''b'']
      else if u = 9 then [bs, CHR ''t'']
      else if u = 10 then [bs, CHR ''n'']
      else if u = 12 then [bs, CHR ''f'']
      else if u = 13 then [bs, CHR ''r'']
      else if u = 34 then [bs, CHR 0x22]
      else if u = 92 then [bs, bs]
      else if u < 32 then [bs, CHR ''u'', CHR ''0'', CHR ''0'', hex_digit (u div 16), hex_digit (u mod 16)]
      else [c])"

definition QuoteJSONString :: "string \<Rightarrow> string" where
  "QuoteJSONString s = CHR 0x22 # concat (map quote_unit s) @ [CHR 0x22]"

fun join :: "string list \<Rightarrow> string \<Rightarrow> string" where
  "join [] sep = []"
| "join [x] sep = x"
| "join (x # y # ys) sep = x @ sep @ join (y # ys) sep"

function SerializeJSONProperty :: "string \<Rightarrow> jsval \<Rightarrow> string option"
  and SerializeJSONMembers :: "string \<Rightarrow> object \<Rightarrow> string list" where
  "SerializeJSONProperty indent Undefined = None"
| "SerializeJSONProperty indent Null = Some ''null''"
| "SerializeJSONProperty indent (Boolean b) = Some (if b then ''true'' else ''false'')"
| "SerializeJSONProperty indent (Num n) =
     Some (if isFinite (Num n) then String_js (Num n) else ''null'')"
| "SerializeJSONProperty indent (Frac r) =
     Some (if isFinite (Frac r) then String_js (Frac r) else ''null'')"
| "SerializeJSONProperty indent PosInfinity = Some ''null''"
| "SerializeJSONProperty indent NegInfinity = Some ''null''"
| "SerializeJSONProperty indent NaN = Some ''null''"
| "SerializeJSONProperty indent (Str s) = Some (QuoteJSONString s)"
| "SerializeJSONProperty stepback (Obj ps) =
     (let indent = stepback @ ''  '';
          partial = SerializeJSONMembers indent ps
      in Some (if partial = [] then ''{}''
               else ''{'' @ [CHR 0x0A] @ indent @ join partial ('','' @ [CHR 0x0A] @ indent)
                    @ [CHR 0x0A] @ stepback @ ''}''))"
| "SerializeJSONMembers indent [] = []"
| "SerializeJSONMembers indent ((k, v) # ps) =
     (case SerializeJSONProperty indent v of
        None \<Rightarrow> SerializeJSONMembers indent ps
      | Some str \<Rightarrow> (QuoteJSONString k @ '': '' @ str) # SerializeJSONMembers indent ps)"
  by pat_completeness auto
termination
  by (relation "measure (\<lambda>x. case x of
         Inl (i, v) \<Rightarrow> size v
       | Inr (i, ps) \<Rightarrow> size_list (size_prod (\<lambda>k. 0) size) ps)") auto

definition JSON_stringify :: "jsval \<Rightarrow> string option" where
  "JSON_stringify v = SerializeJSONProperty [] v"

subsection \<open>The response handle\<close>

text \<open>
  The response object as the repository's own stand-in for \<open>HTTP.ServerResponse\<close>
  implements it: header names are stored in lower case, written chunks are collected,
  and \<open>end\<close> joins them into the body.
\<close>

record ServerResponse =
  headers :: object
  chunks :: "string list"
  statusCode :: jsval
  statusMessage :: jsval
  ended :: bool
  body :: jsval

definition new_ServerResponse :: ServerResponse where
  "new_ServerResponse =
     \<lparr> headers = [], chunks = [], statusCode = Undefined, statusMessage = Undefined,
       ended = False, body = Undefined \<rparr>"

definition setHeader :: "ServerResponse \<Rightarrow> string \<Rightarrow> jsval \<Rightarrow> ServerResponse" where
  "setHeader res nm v = res\<lparr> headers := js_set (headers res) (toLowerCase nm) v \<rparr>"

definition writeHead :: "ServerResponse \<Rightarrow> jsval \<Rightarrow> jsval \<Rightarrow> object option \<Rightarrow> ServerResponse" where
  "writeHead res c status hs =
     (let res1 = res\<lparr> statusCode := c \<rparr>;
          res2 = (if truthy status then res1\<lparr> statusMessage := status \<rparr> else res1)
      in case hs of None \<Rightarrow> res2 | Some h \<Rightarrow> res2\<lparr> headers := h \<rparr>)"

definition write_chunk :: "ServerResponse \<Rightarrow> string \<Rightarrow> ServerResponse" where
  "write_chunk res chunk = res\<lparr> chunks := chunks res @ [chunk] \<rparr>"

definition end_response :: "ServerResponse \<Rightarrow> string option \<Rightarrow> ServerResponse" where
  "end_response res chunk =
     (let res1 = (case chunk of None \<Rightarrow> res | Some c \<Rightarrow> res\<lparr> chunks := chunks res @ [c] \<rparr>)
      in res1\<lparr> ended := True, body := Str (concat (chunks res1)) \<rparr>)"

subsection \<open>The terminal error handler\<close>

text \<open>
  \<open>HTTPError.handler(err, req, res)\<close>. The request handle is not read. \<open>stk\<close> is the
  stack the runtime captures should the handler construct a wrapping error. The result
  is the response after \<open>res.end()\<close> together with the error handed to \<open>Log.debug\<close>.
\<close>

definition handler :: "string \<Rightarrow> thrown \<Rightarrow> 'req \<Rightarrow> ServerResponse \<Rightarrow> error + ServerResponse \<times> http_error" where
  "handler stk err req res =
     (case (case err of
              HTTPError_instance e \<Rightarrow> Inr e
            | Error x \<Rightarrow>
                HTTPError stk (js_or (code x) (js_get STATUS_CODES ''INTERNAL_SERVER_ERROR''))
                  (message x) Undefined) of
        Inl ex \<Rightarrow> Inl ex
      | Inr e \<Rightarrow>
          (case JSON_stringify (toJSON e) of
             None \<Rightarrow> Inl TypeError
           | Some content \<Rightarrow>
               (let res1 = setHeader res ''Content-Type'' (Str ''application/json'');
                    res2 = setHeader res1 ''Content-Length'' (Num (int (length content)));
                    res3 = writeHead res2
                             (js_or (code e) (js_get STATUS_CODES ''INTERNAL_SERVER_ERROR''))
                             Undefined None;
                    res4 = write_chunk res3 content;
                    res5 = end_response res4 None
                in Inr (res5, e))))"


text \<open>
  The text of an object with the four members \<open>code\<close>, \<open>name\<close>, \<open>message\<close> and
  \<open>metadata\<close>, in this order, given the text of each value: what the response body is
  compared with.
\<close>

definition error_document :: "string \<Rightarrow> string \<Rightarrow> string \<Rightarrow> string \<Rightarrow> string" where
  "error_document c nm msg md =
     ''{'' @ [CHR 0x0A] @ ''  ''
       @ join [QuoteJSONString ''code'' @ '': '' @ c,
               QuoteJSONString ''name'' @ '': '' @ nm,
               QuoteJSONString ''message'' @ '': '' @ msg,
               QuoteJSONString ''metadata'' @ '': '' @ md] ('','' @ [CHR 0x0A] @ ''  '')
       @ [CHR 0x0A] @ ''}''"

section \<open>The server (\<open>bin/server\<close>)\<close>

subsection \<open>Configuration\<close>

text \<open>
  The configuration store is a nested object; \<open>Config.get\<close> takes a path whose segments
  are separated by colons.
\<close>

fun split_on :: "char \<Rightarrow> string \<Rightarrow> string list" where
  "split_on d [] = [[]]"
| "split_on d (c # cs) =
     (if c = d then [] # split_on d cs
      else (case split_on d cs of [] \<Rightarrow> [[c]] | w # ws \<Rightarrow> (c # w) # ws))"

fun descend :: "jsval \<Rightarrow> string list \<Rightarrow> jsval" where
  "descend v [] = v"
| "descend (Obj ps) (k # ks) = (case map_of ps k of None \<Rightarrow> Undefined | Some v \<Rightarrow> descend v ks)"
| "descend v (k # ks) = Undefined"

definition Config_get :: "jsval \<Rightarrow> string \<Rightarrow> jsval" where
  "Config_get Config key = descend Config (split_on (CHR '':'') key)"

text \<open>
  Modelled from the spec: \<open>lib/config\<close>, the module that loads the configuration and
  supplies the defaults, is not among the sources; only its caller \<open>bin/server\<close> and the
  documentation page \<open>docs/_pages/configuration.md\<close> are. The defaults below are the
  groups of the spec's configuration surface (listen address and port, correlation,
  credential store, signing, upstream), under the keys \<open>bin/server\<close> reads and with the
  values the documentation page lists. The page's \<open>log\<close> group configures the logging
  sink, which the spec places outside the surface, and is not part of them.
\<close>

definition defaults :: jsval where
  "defaults = Obj [
     (''listen'', Obj [(''port'', Num 9300), (''bind'', Str ''0.0.0.0'')]),
     (''correlation'', Obj [(''enable'', Boolean True), (''header'', Str ''X-Request-Identifier'')]),
     (''local'', Obj [
        (''db'', Obj [(''path'', Str ''data/keys.json''), (''signal'', Str ''SIGHUP'')]),
        (''algorithm'', Str ''sha256''),
        (''skew'', Num 1000)]),
     (''service'', Obj [(''port'', Num 9301), (''hostname'', Str ''localhost'')])]"

subsection \<open>Attaching the stages\<close>

text \<open>
  A stage is the middleware a factory returns for the configuration group it is given.
  \<open>use\<close> records the stages in the order in which the script attaches them.
\<close>

datatype stage =
    Correlation jsval
  | Authn jsval
  | Forward jsval

definition use :: "stage list \<Rightarrow> stage \<Rightarrow> stage list" where
  "use app layer = app @ [layer]"

record listener =
  stages :: "stage list"
  listen_port :: jsval
  listen_bind :: jsval

definition server :: "jsval \<Rightarrow> listener" where
  "server Config =
     (let app = [];
          app1 = (if truthy (Config_get Config ''correlation:enable'')
                  then use app (Correlation (Config_get Config ''correlation''))
                  else app);
          app2 = use app1 (Authn (Config_get Config ''local''));
          app3 = use app2 (Forward (Config_get Config ''service''))
      in \<lparr> stages = app3,
           listen_port = Config_get Config ''listen:port'',
           listen_bind = Config_get Config ''listen:bind'' \<rparr>)"

section \<open>The command line client\<close>

subsection \<open>Base64\<close>

definition b64_alphabet :: string where
  "b64_alphabet = ''ABCDEFGHIJKLMNOPQRSTUVWXYZabcdefghijklmnopqrstuvwxyz0123456789+/''"

definition b64_char :: "nat \<Rightarrow> char" where
  "b64_char i = b64_alphabet ! (i mod 64)"

fun base64 :: "string \<Rightarrow> string" where
  "base64 [] = []"
| "base64 [a] =
     (let x = unit_of a
      in [b64_char (x div 4), b64_char ((x mod 4) * 16), CHR ''='', CHR ''=''])"
| "base64 [a, b] =
     (let x = unit_of a; y = unit_of b
      in [b64_char (x div 4), b64_char ((x mod 4) * 16 + y div 16),
          b64_char ((y mod 16) * 4), CHR ''=''])"
| "base64 (a # b # c # rest) =
     (let x = unit_of a; y = unit_of b; z = unit_of c
      in [b64_char (x div 4), b64_char ((x mod 4) * 16 + y div 16),
          b64_char ((y mod 16) * 4 + z div 64), b64_char (z mod 64)] @ base64 rest)"

subsection \<open>The request parameters\<close>

text \<open>The fields of the object \<open>URL.parse\<close> returns; each is a string or \<open>null\<close>.\<close>

record Url =
  protocol :: jsval
  slashes :: jsval
  auth :: jsval
  host :: jsval
  port :: jsval
  hostname :: jsval
  hash :: jsval
  search :: jsval
  query :: jsval
  pathname :: jsval
  path :: jsval
  href :: jsval

text \<open>
  \<open>params\<close> after the script has deleted the URL fields that would override the request
  options. A date is its time value, the milliseconds since the epoch. The payload is
  \<open>None\<close> for \<open>false\<close> and otherwise the bytes of a buffer.
\<close>

record params =
  p_slashes :: jsval
  p_port :: jsval
  p_hostname :: jsval
  p_path :: jsval
  p_method :: jsval
  p_headers :: object
  p_date :: int
  p_identity :: jsval
  p_payload :: "string option"

datatype provider = HTTP | HTTPS

text \<open>
  What the script takes from its surroundings: the clock, the runtime's date printing
  and URL parsing, standard input (\<open>None\<close> when the stream never ends), the file system,
  the runtime's hash provider (\<open>None\<close> for an algorithm it does not support; otherwise the
  function from the data fed to the hash to the raw digest), and the repository's
  signature class, which is outside the sources at hand and is taken as given:
  \<open>Signature_sign algorithm params secret\<close> is the text left in \<open>signature.signature\<close> by
  \<open>new Signature(algorithm, params)\<close> followed by \<open>sign(secret)\<close>.
\<close>

record environment =
  now :: int
  Date_toString :: "int \<Rightarrow> string"
  URL_parse :: "string \<Rightarrow> Url"
  process_version :: string
  stdin :: "string option"
  readFile :: "string \<Rightarrow> error + string"
  createHash :: "string \<Rightarrow> (string \<Rightarrow> string) option"
  Signature_sign :: "string \<Rightarrow> params \<Rightarrow> jsval \<Rightarrow> error + string"

text \<open>
  \<open>setMilliseconds\<close> replaces the millisecond component of a time value (local time
  differs from UTC by whole seconds).
\<close>

definition setMilliseconds :: "int \<Rightarrow> int \<Rightarrow> int" where
  "setMilliseconds t ms = t - t mod 1000 + ms"

subsection \<open>Reading the payload, hashing it, signing and sending\<close>

text \<open>
  \<open>read(payload)\<close>: a value that is not a string resolves to \<open>false\<close>; a leading \<open>-\<close>
  reads standard input, a leading \<open>@\<close> reads the file named by the rest (resolved against
  the script's directory by the file system of the environment); any other string,
  the empty one included, becomes a buffer of its bytes.
\<close>

definition read :: "environment \<Rightarrow> jsval \<Rightarrow> error + string option" where
  "read env payload =
     (case payload of
        Str s \<Rightarrow>
          (case s of
             [] \<Rightarrow> Inr (Some [])
           | c # cs \<Rightarrow>
               if c = CHR ''-'' then (case stdin env of None \<Rightarrow> Inl Pending | Some d \<Rightarrow> Inr (Some d))
               else if c = CHR ''@'' then
                 (case readFile env cs of Inl e \<Rightarrow> Inl e | Inr d \<Rightarrow> Inr (Some d))
               else Inr (Some s))
      | _ \<Rightarrow> Inr None)"

text \<open>
  \<open>digest(algorithm, payload)\<close>: the hash is updated only with a payload that is truthy,
  which every buffer is, the empty one too.
\<close>

definition digest :: "environment \<Rightarrow> jsval \<Rightarrow> string option \<Rightarrow> error + string" where
  "digest env algorithm payload =
     (case algorithm of
        Str a \<Rightarrow>
          (case createHash env a of
             None \<Rightarrow> Inl DigestError
           | Some h \<Rightarrow>
               (let fed = (case payload of Some b \<Rightarrow> [] @ b | None \<Rightarrow> [])
                in Inr (base64 (h fed))))
      | _ \<Rightarrow> Inl TypeError)"

text \<open>
  The request as it is handed to the HTTP provider: the final options, the
  \<open>Content-Length\<close> header set on it, and the body written before \<open>req.end()\<close>.
\<close>

record sent =
  via :: provider
  options :: params
  content_length :: nat
  written :: "string option"

definition request :: "environment \<Rightarrow> jsval \<Rightarrow> provider \<Rightarrow> params \<Rightarrow> error + sent" where
  "request env Config proto ps =
     (let algorithm = Config_get Config ''digest'' in
      case read env (Config_get Config ''payload'') of
        Inl e \<Rightarrow> Inl e
      | Inr payload \<Rightarrow>
          (let ps1 = ps\<lparr> p_payload := payload \<rparr> in
           case digest env algorithm payload of
             Inl e \<Rightarrow> Inl e
           | Inr signature \<Rightarrow>
               (let ps2 = ps1\<lparr> p_headers :=
                            js_set (p_headers ps1) ''digest''
                              (Str (String_js algorithm @ ''='' @ signature)) \<rparr> in
                case Signature_sign env ''sha256'' ps2 (Config_get Config ''secret'') of
                  Inl e \<Rightarrow> Inl e
                | Inr sig \<Rightarrow>
                    (let authorization = base64 (String_js (p_identity ps2) @ '':'' @ sig);
                         ps3 = ps2\<lparr> p_headers :=
                                  js_set (p_headers ps2) ''authorization''
                                    (Str (''Rapid7-HMAC-V1-SHA256 '' @ authorization)) \<rparr>
                     in Inr \<lparr> via = proto, options = ps3,
                              content_length = (case p_payload ps3 of Some b \<Rightarrow> length b | None \<Rightarrow> 0),
                              written = p_payload ps3 \<rparr>))))"

text \<open>The script's top level: the parameters it builds, and the request it makes with them.\<close>

definition client_params :: "environment \<Rightarrow> jsval \<Rightarrow> string \<Rightarrow> params" where
  "client_params env Config url =
     (let date = now env;
          u = URL_parse env url
      in \<lparr> p_slashes = slashes u, p_port = port u, p_hostname = hostname u, p_path = path u,
           p_method = Config_get Config ''method'',
           p_headers = [(''date'', Str (Date_toString env date)),
                        (''host'', host u),
                        (''user-agent'', Str (''node-'' @ process_version env @ ''/turnstile-tester''))],
           p_date = setMilliseconds date 0,
           p_identity = Config_get Config ''identity'',
           p_payload = None \<rparr>)"

definition client :: "environment \<Rightarrow> jsval \<Rightarrow> string \<Rightarrow> error + sent" where
  "client env Config url =
     (let proto = (if protocol (URL_parse env url) = Str ''https:'' then HTTPS else HTTP)
      in request env Config proto (client_params env Config url))"

text \<open>
  The parameters the script hands to the signature class: those of the top level with
  the payload and the \<open>digest\<close> header in place. And a header of the request sent.
\<close>

definition signing_input :: "environment \<Rightarrow> jsval \<Rightarrow> string \<Rightarrow> string option \<Rightarrow> string \<Rightarrow> params" where
  "signing_input env Config url payload digest_value =
     (client_params env Config url)
       \<lparr> p_payload := payload,
         p_headers := js_set (p_headers (client_params env Config url)) ''digest'' (Str digest_value) \<rparr>"

definition sent_header :: "string \<Rightarrow> sent \<Rightarrow> jsval" where
  "sent_header nm s = js_get (p_headers (options s)) nm"

text \<open>
  A small environment on which the client can be run: the clock reads a fixed instant,
  dates print as their whole seconds, the hash provider knows one algorithm name (a
  one-byte checksum stands in for its digest), and signing returns a fixed text.
\<close>

definition sample_url :: Url where
  "sample_url =
     \<lparr> protocol = Str ''http:'', slashes = Boolean True, auth = Null, host = Str ''localhost:9300'',
       port = Str ''9300'', hostname = Str ''localhost'', hash = Null, search = Null,
       query = Null, pathname = Str ''/widgets'', path = Str ''/widgets'',
       href = Str ''http://localhost:9300/widgets'' \<rparr>"

definition sample_environment :: environment where
  "sample_environment =
     \<lparr> now = 1478142187123,
       Date_toString = (\<lambda>t. dec_int (t div 1000)),
       URL_parse = (\<lambda>u. sample_url),
       process_version = ''v4.6.1'',
       stdin = Some [],
       readFile = (\<lambda>f. Inl SystemError),
       createHash = (\<lambda>a. if a = ''sha256'' then Some (\<lambda>d. [char_of (sum_list (map unit_of d))]) else None),
       Signature_sign = (\<lambda>a ps secret. Inr ''c2lnbg=='') \<rparr>"

definition sample_config :: jsval where
  "sample_config =
     Obj [(''method'', Str ''POST''), (''payload'', Str ''hi''), (''digest'', Str ''sha256''),
          (''output'', Boolean False), (''identity'', Str ''alice''), (''secret'', Str ''s3cret'')]"

text \<open>The request the client sends in that environment.\<close>

definition sample_sent :: sent where
  "sample_sent =
     \<lparr> via = HTTP,
       options = \<lparr> p_slashes = Boolean True, p_port = Str ''9300'', p_hostname = Str ''localhost'',
                   p_path = Str ''/widgets'', p_method = Str ''POST'',
                   p_headers = [(''date'', Str ''1478142187''),
                                (''host'', Str ''localhost:9300''),
                                (''user-agent'', Str ''node-v4.6.1/turnstile-tester''),
                                (''digest'', Str ''sha256=0Q==''),
                                (''authorization'', Str ''Rapid7-HMAC-V1-SHA256 YWxpY2U6YzJsbmJnPT0='')],
                   p_date = 1478142187000, p_identity = Str ''alice'', p_payload = Some ''hi'' \<rparr>,
       content_length = 2, written = Some ''hi'' \<rparr>"

section \<open>Properties of the number conversions\<close>

lemma parse_dec_snoc: "parse_dec (k @ [c]) = 10 * parse_dec k + (unit_of c - 48)"
  by (simp add: parse_dec_def)

lemma parse_dec_bound: "list_all is_digit k \<Longrightarrow> parse_dec k < 10 ^ length k"
proof (induction k rule: rev_induct)
  case Nil
  then show ?case by (simp add: parse_dec_def)
next
  case (snoc c k)
  then have "parse_dec k < 10 ^ length k" and "unit_of c - 48 < 10"
    by (auto simp: is_digit_def)
  then show ?case by (simp add: parse_dec_snoc)
qed

lemma strip_unchanged:
  assumes "list_all (\<lambda>w. take (length w) s \<noteq> w) ws"
  shows "strip ws s = s"
proof -
  have "filter (\<lambda>w. w \<noteq> [] \<and> take (length w) s = w) ws = []"
    using assms by (auto simp: list_all_iff filter_empty_conv)
  then show ?thesis by (subst strip.simps) simp
qed

lemma prefix_head: "w \<noteq> [] \<Longrightarrow> take (length w) s = w \<Longrightarrow> s \<noteq> [] \<and> hd s = hd w"
  by (cases w; cases s) auto

lemma strip_graphic:
  assumes "s \<noteq> []" and "graphic (hd s)" and "list_all (\<lambda>w. w \<noteq> [] \<and> \<not> graphic (hd w)) ws"
  shows "strip ws s = s"
proof (rule strip_unchanged)
  show "list_all (\<lambda>w. take (length w) s \<noteq> w) ws"
    unfolding list_all_iff
  proof (intro ballI notI)
    fix w
    assume "w \<in> set ws" and eq: "take (length w) s = w"
    with assms(3) have w: "w \<noteq> []" "\<not> graphic (hd w)"
      by (simp_all add: list_all_iff)
    from prefix_head [OF w(1) eq] have "hd s = hd w" by simp
    with assms(2) w(2) show False by simp
  qed
qed

lemma white_space_heads:
  "list_all (\<lambda>w. w \<noteq> [] \<and> \<not> graphic (hd w)) StrWhiteSpaceChar"
  "list_all (\<lambda>w. w \<noteq> [] \<and> \<not> graphic (hd w)) (map rev StrWhiteSpaceChar)"
  by (simp_all add: StrWhiteSpaceChar_def graphic_def unit_of_def)

lemma trim_graphic:
  assumes "s \<noteq> []" and "graphic (hd s)" and "graphic (last s)"
  shows "trim s = s"
  using assms by (simp add: trim_def strip_graphic white_space_heads hd_rev)

lemma digit_graphic: "is_digit c \<Longrightarrow> graphic c"
  by (simp add: is_digit_def graphic_def)

lemma trim_numeral:
  assumes "k \<noteq> []" and "list_all is_digit k"
  shows "trim k = k"
proof -
  have "is_digit (hd k)" "is_digit (last k)"
    using assms by (auto simp: list_all_iff)
  then show ?thesis
    using assms(1) by (simp add: trim_graphic digit_graphic)
qed

lemma strip_Nil: "strip ws [] = []"
proof -
  have "filter (\<lambda>w. w \<noteq> [] \<and> take (length w) [] = w) ws = []"
    by (auto simp: filter_empty_conv)
  then show ?thesis by (subst strip.simps) simp
qed

lemma trim_Nil: "trim [] = []"
  by (simp add: trim_def strip_Nil)

lemma radix_literal_digits:
  assumes "list_all is_digit k"
  shows "radix_literal k = None"
proof (cases k)
  case Nil
  then show ?thesis by (simp add: radix_literal_def)
next
  case (Cons z r)
  show ?thesis
  proof (cases r)
    case Nil
    with Cons show ?thesis by (simp add: radix_literal_def)
  next
    case (Cons x ds)
    with assms \<open>k = z # r\<close> have "is_digit x" by simp
    then have "x \<noteq> CHR ''x''" "x \<noteq> CHR ''X''" "x \<noteq> CHR ''o''" "x \<noteq> CHR ''O''"
      "x \<noteq> CHR ''b''" "x \<noteq> CHR ''B''"
      by (auto simp: is_digit_def unit_of_def)
    with Cons \<open>k = z # r\<close> show ?thesis by (simp add: radix_literal_def)
  qed
qed

lemma decimal_literal_digits:
  assumes "k \<noteq> []" and "list_all is_digit k"
  shows "decimal_literal k = Some (of_nat (parse_dec k))"
proof -
  have tw: "takeWhile is_digit k = k" and dw: "dropWhile is_digit k = []"
    using assms(2) by (simp_all add: list_all_iff)
  show ?thesis
    unfolding decimal_literal_def Let_def tw dw
    using assms(1) by (simp add: exponent_part_def power_of_def)
qed

lemma number_of_small: "\<bar>i\<bar> \<le> 2 ^ 53 \<Longrightarrow> number_of (of_int i) = Num i"
proof -
  assume "\<bar>i\<bar> \<le> 2 ^ 53"
  then have "\<bar>of_int i :: rat\<bar> \<le> 2 ^ 53"
    by (metis of_int_abs of_int_le_numeral_power_cancel_iff)
  then show ?thesis by (simp add: number_of_def)
qed

lemma number_text_small: "\<bar>i\<bar> \<le> 2 ^ 53 \<Longrightarrow> number_text (of_int i) = dec_int i"
proof -
  assume "\<bar>i\<bar> \<le> 2 ^ 53"
  then have "\<bar>of_int i :: rat\<bar> \<le> 2 ^ 53"
    by (metis of_int_abs of_int_le_numeral_power_cancel_iff)
  then show ?thesis by (simp add: number_text_def)
qed

lemma unsigned_dispatch:
  assumes "k \<noteq> []" and "hd k \<noteq> CHR ''-''" and "hd k \<noteq> CHR ''+''"
  shows "(case k of c # cs \<Rightarrow> if c = CHR ''-'' then a cs else if c = CHR ''+'' then b cs else d
          | [] \<Rightarrow> e) = d"
  using assms by (cases k) simp_all

lemma StringToNumber_numeral:
  assumes "numeral_key k"
  shows "StringToNumber k = Num (int (parse_dec k))"
proof -
  from assms have k: "k \<noteq> []" "list_all is_digit k" "length k \<le> 15"
    by (simp_all add: numeral_key_def)
  have "parse_dec k < 10 ^ length k" by (rule parse_dec_bound [OF k(2)])
  also have "(10::nat) ^ length k \<le> 10 ^ 15"
    using k(3) by (intro power_increasing) simp_all
  finally have "\<bar>int (parse_dec k)\<bar> \<le> 2 ^ 53" by simp
  from number_of_small [OF this] have n: "number_of (of_nat (parse_dec k)) = Num (int (parse_dec k))"
    by simp
  have h: "is_digit (hd k)" using k by (cases k) auto
  then have s: "hd k \<noteq> CHR ''-''" "hd k \<noteq> CHR ''+''"
    by (auto simp: is_digit_def unit_of_def)
  have i: "k \<noteq> ''Infinity''"
    using h by (auto simp: is_digit_def unit_of_def)
  have "StringToNumber k = unsigned_literal False k"
    unfolding StringToNumber_def Let_def trim_numeral [OF k(1,2)] radix_literal_digits [OF k(2)]
    using k(1) s by (simp add: unsigned_dispatch)
  then show ?thesis
    using n i by (simp add: unsigned_literal_def decimal_literal_digits [OF k(1,2)])
qed

lemma Number_numeral_key: "numeral_key k \<Longrightarrow> Number (Str k) = Inr (Num (int (parse_dec k)))"
  by (simp add: StringToNumber_numeral)

lemma dec_nat_bound: "n < 10 ^ length (dec_nat n)"
proof (induction n rule: dec_nat.induct)
  case (1 n)
  show ?case
  proof (cases "n < 10")
    case True
    then show ?thesis by (subst dec_nat.simps) simp
  next
    case False
    with 1 have "n div 10 < 10 ^ length (dec_nat (n div 10))" by simp
    then have "n < 10 * 10 ^ length (dec_nat (n div 10))"
      by (simp add: less_mult_imp_div_less div_less_iff_less_mult)
    then show ?thesis using False by (subst dec_nat.simps) simp
  qed
qed

lemma falsy_Number: "\<not> truthy v \<Longrightarrow> Number v = Inr NaN \<or> Number v = Inr (Num 0)"
  by (cases v) (simp_all add: StringToNumber_def trim_Nil number_of_def)

lemma trim_samples:
  "trim ''ECONNREFUSED'' = ''ECONNREFUSED''"
  "trim ''42P01'' = ''42P01''"
  "trim ''12abc'' = ''12abc''"
  "trim ''4e2'' = ''4e2''"
  by (simp_all add: trim_graphic graphic_def unit_of_def)

lemma trim_blank: "trim '' '' = []"
proof -
  have "strip StrWhiteSpaceChar '' '' = strip StrWhiteSpaceChar []"
    by (subst strip.simps) (simp add: StrWhiteSpaceChar_def)
  then show ?thesis by (simp add: trim_def strip_Nil)
qed

lemma StringToNumber_samples:
  "StringToNumber ''ECONNREFUSED'' = NaN"
  "StringToNumber ''42P01'' = NaN"
  "StringToNumber ''12abc'' = NaN"
  "StringToNumber '' '' = Num 0"
  "StringToNumber ''4e2'' = Num 400"
  by (simp_all add: StringToNumber_def trim_samples trim_blank
      radix_literal_def unsigned_literal_def decimal_literal_def exponent_part_def
      signed_integer_def is_digit_def unit_of_def parse_dec_def power_of_def number_of_def)

lemma not_finite_text:
  "\<not> isFinite (Num n) \<Longrightarrow> String_js (Num n) = ''Infinity'' \<or> String_js (Num n) = ''-Infinity''"
  "\<not> isFinite (Frac r) \<Longrightarrow> String_js (Frac r) = ''Infinity'' \<or> String_js (Frac r) = ''-Infinity''"
  by (auto simp: number_of_def number_text_def Let_def split: if_splits option.splits)

section \<open>Properties of the error module\<close>

subsection \<open>Property tables\<close>

lemma map_of_insert_index:
  "k \<notin> fst ` set ps \<Longrightarrow> map_of (insert_index ps k v) = (map_of ps)(k \<mapsto> v)"
  by (induction ps) (auto simp: fun_eq_iff)

lemma map_of_replace_at:
  "map_of (map (\<lambda>(k', v'). if k' = k then (k', v) else (k', v')) ps) x =
     (if x = k then (if k \<in> fst ` set ps then Some v else None) else map_of ps x)"
proof (induction ps)
  case Nil
  then show ?case by simp
next
  case (Cons a ps)
  obtain k' v' where a: "a = (k', v')" by (cases a)
  show ?case
    using Cons by (cases "k' = k") (force simp: a)+
qed

lemma map_of_append_fresh:
  "k \<notin> fst ` set ps \<Longrightarrow> map_of (ps @ [(k, v)]) = (map_of ps)(k \<mapsto> v)"
proof -
  assume "k \<notin> fst ` set ps"
  then have "map_of ps k = None" by (simp add: map_of_eq_None_iff)
  then show ?thesis
    by (auto simp: fun_eq_iff map_add_def split: option.splits)
qed

lemma map_of_js_set: "map_of (js_set ps k v) = (map_of ps)(k \<mapsto> v)"
proof (cases "k \<in> fst ` set ps")
  case True
  then show ?thesis
    by (simp add: js_set_def fun_eq_iff map_of_replace_at)
next
  case False
  show ?thesis
  proof (cases "array_index k")
    case True
    then show ?thesis
      using False by (simp add: js_set_def map_of_insert_index)
  next
    case no_index: False
    have "js_set ps k v = ps @ [(k, v)]"
      using False no_index by (simp add: js_set_def)
    then show ?thesis
      using map_of_append_fresh [OF False] by simp
  qed
qed

lemma js_set_append:
  "k \<notin> fst ` set ps \<Longrightarrow> \<not> array_index k \<Longrightarrow> js_set ps k v = ps @ [(k, v)]"
  by (simp add: js_set_def)

lemma letter_not_index: "k \<noteq> [] \<Longrightarrow> \<not> is_digit (hd k) \<Longrightarrow> \<not> array_index k"
  by (cases k) (auto simp: array_index_def)

lemma header_names_not_index:
  "\<not> array_index ''digest''" "\<not> array_index ''authorization''"
  "\<not> array_index ''content-type''" "\<not> array_index ''content-length''"
  by (simp_all add: letter_not_index is_digit_def unit_of_def)

lemma reverse_entry_phrase:
  assumes "map_of sc k = Some (Str p)" and "numeral_key k"
  shows "reverse_entry k sc = Inr (js_set sc (reverse_name p) (Num (int (parse_dec k))))"
  using assms by (simp add: reverse_entry_def js_get_def Number_numeral_key del: Number.simps)

lemma forEach_reverse_entry:
  assumes "\<forall>(k, p) \<in> set es. map_of sc k = Some (Str p) \<and> numeral_key k"
      and "\<forall>(k, p) \<in> set es. \<not> numeral_key (reverse_name p)"
  shows "\<exists>sc'. forEach reverse_entry (map fst es) sc = Inr sc'
           \<and> map_of sc' = map_of sc ++
                map_of (rev (map (\<lambda>(k, p). (reverse_name p, Num (int (parse_dec k)))) es))"
  using assms
proof (induction es arbitrary: sc)
  case Nil
  then show ?case by simp
next
  case (Cons e es)
  obtain k p where e: "e = (k, p)" by (cases e)
  let ?nm = "reverse_name p" and ?n = "Num (int (parse_dec k))"
  let ?sc1 = "js_set sc ?nm ?n"
  have kp: "map_of sc k = Some (Str p)" "numeral_key k" "\<not> numeral_key ?nm"
    using Cons.prems e by auto
  have step: "reverse_entry k sc = Inr ?sc1"
    using kp by (simp add: reverse_entry_phrase)
  have keep: "\<forall>(k', p') \<in> set es. map_of ?sc1 k' = Some (Str p') \<and> numeral_key k'"
  proof (clarify)
    fix k' p' assume in_es: "(k', p') \<in> set es"
    then have a: "map_of sc k' = Some (Str p')" "numeral_key k'"
      using Cons.prems(1) by auto
    then have "k' \<noteq> ?nm" using kp(3) by auto
    then show "map_of ?sc1 k' = Some (Str p') \<and> numeral_key k'"
      using a by (simp add: map_of_js_set)
  qed
  have rest: "\<forall>(k, p) \<in> set es. \<not> numeral_key (reverse_name p)"
    using Cons.prems(2) by auto
  from Cons.IH [OF keep rest] obtain sc' where
    run: "forEach reverse_entry (map fst es) ?sc1 = Inr sc'" and
    m: "map_of sc' = map_of ?sc1 ++
          map_of (rev (map (\<lambda>(k, p). (reverse_name p, Num (int (parse_dec k)))) es))"
    by blast
  have "forEach reverse_entry (map fst (e # es)) sc = Inr sc'"
    using step run by (simp add: e)
  moreover have "map_of sc' = map_of sc ++
      map_of (rev (map (\<lambda>(k, p). (reverse_name p, Num (int (parse_dec k)))) (e # es)))"
    unfolding m by (auto simp: e map_of_js_set fun_eq_iff map_add_def split: option.splits)
  ultimately show ?case by blast
qed


lemma map_of_phrase_entries:
  "distinct (map fst base) \<Longrightarrow> (k, p) \<in> set (phrase_entries base) \<Longrightarrow> map_of base k = Some (Str p)"
  by (auto simp: phrase_entries_def split: jsval.splits)

lemma phrase_entries_all:
  "list_all (\<lambda>(k, v). numeral_key k \<and> (case v of Str p \<Rightarrow> True | _ \<Rightarrow> False)) base
     \<Longrightarrow> map fst (phrase_entries base) = map fst base"
  by (induction base) (auto simp: phrase_entries_def split: jsval.splits)

lemma insert_index_last:
  "list_all (\<lambda>k'. array_index k' \<and> parse_dec k' < parse_dec k) (map fst ps) \<Longrightarrow>
     insert_index ps k v = ps @ [(k, v)]"
  by (induction ps) auto

lemma js_set_last:
  assumes "array_index k"
      and "list_all (\<lambda>k'. array_index k' \<and> parse_dec k' < parse_dec k) (map fst ps)"
  shows "js_set ps k v = ps @ [(k, v)]"
proof -
  have "k \<notin> fst ` set ps"
    using assms(2) by (auto simp: list_all_iff)
  then show ?thesis
    using assms by (simp add: js_set_def insert_index_last)
qed

lemma Object_assign_ascending:
  "ascending (map fst (t @ src)) \<Longrightarrow> Object_assign t src = t @ src"
proof (induction src arbitrary: t)
  case Nil
  then show ?case by (simp add: Object_assign_def)
next
  case (Cons a src)
  obtain k v where a: "a = (k, v)" by (cases a)
  have asc: "list_all array_index (map fst (t @ a # src))"
    "sorted_wrt (\<lambda>a b. parse_dec a < parse_dec b) (map fst (t @ a # src))"
    using Cons.prems by (simp_all add: ascending_def)
  have k: "array_index k" using asc(1) a by simp
  have below: "list_all (\<lambda>k'. array_index k' \<and> parse_dec k' < parse_dec k) (map fst t)"
    using asc a by (auto simp: list_all_iff sorted_wrt_append)
  have "Object_assign t (a # src) = Object_assign (js_set t k v) src"
    by (simp add: Object_assign_def a)
  also have "\<dots> = Object_assign (t @ [(k, v)]) src"
    by (simp add: js_set_last [OF k below])
  also have "\<dots> = (t @ [(k, v)]) @ src"
  proof (rule Cons.IH)
    show "ascending (map fst ((t @ [(k, v)]) @ src))"
      using Cons.prems a by simp
  qed
  finally show ?case by (simp add: a)
qed

lemma Object_assign_copy: "ascending (map fst base) \<Longrightarrow> Object_assign [] base = base"
  using Object_assign_ascending [of "[]" base] by simp

lemma sorted_by_value_distinct:
  "sorted_wrt (\<lambda>a b. parse_dec a < parse_dec b) ks \<Longrightarrow> distinct ks"
  by (induction ks) auto

lemma ascending_distinct: "ascending ks \<Longrightarrow> distinct ks"
  by (simp add: ascending_def sorted_by_value_distinct)

lemma map_of_rev_distinct: "distinct (map fst xs) \<Longrightarrow> map_of (rev xs) = map_of xs"
  by (rule map_of_inject_set [THEN iffD2]) (simp_all add: rev_map [symmetric])

lemma reverse_map_well_formed:
  assumes wf: "well_formed base"
  shows "\<exists>sc. reverse_map base = Inr sc
           \<and> map_of sc = map_of base ++ map_of (reversed_entries base)"
proof -
  have asc: "ascending (map fst base)"
    and a: "list_all (\<lambda>(k, v). numeral_key k \<and> (case v of Str p \<Rightarrow> True | _ \<Rightarrow> False)) base"
    and dn: "distinct (map fst (reversed_entries base))"
    and nn: "list_all (\<lambda>(nm, n). \<not> numeral_key nm) (reversed_entries base)"
    using wf by (auto simp: well_formed_def)
  have d: "distinct (map fst base)"
    using asc by (rule ascending_distinct)
  let ?es = "phrase_entries base"
  have keys: "map fst ?es = Object_keys base"
    using a by (simp add: phrase_entries_all Object_keys_def)
  have p1: "\<forall>(k, p) \<in> set ?es. map_of base k = Some (Str p) \<and> numeral_key k"
  proof (clarify)
    fix k p assume kp: "(k, p) \<in> set ?es"
    then have "(k, Str p) \<in> set base"
      by (auto simp: phrase_entries_def split: jsval.splits)
    then have "numeral_key k" using a by (auto simp: list_all_iff)
    then show "map_of base k = Some (Str p) \<and> numeral_key k"
      using map_of_phrase_entries [OF d kp] by simp
  qed
  have p2: "\<forall>(k, p) \<in> set ?es. \<not> numeral_key (reverse_name p)"
    using nn by (auto simp: reversed_entries_def list_all_iff)
  from forEach_reverse_entry [OF p1 p2] obtain sc where
    run: "forEach reverse_entry (map fst ?es) base = Inr sc" and
    m: "map_of sc = map_of base ++
          map_of (rev (map (\<lambda>(k, p). (reverse_name p, Num (int (parse_dec k)))) ?es))"
    by blast
  have "reverse_map base = Inr sc"
    using run by (simp add: reverse_map_def Object_assign_copy [OF asc] keys)
  moreover have "map_of (rev (reversed_entries base)) = map_of (reversed_entries base)"
    using dn by (simp add: map_of_rev_distinct)
  ultimately show ?thesis using m by (auto simp: reversed_entries_def)
qed

subsection \<open>The runtime's table is well formed\<close>

lemma reversed_entries_http:
  "reversed_entries http_STATUS_CODES =
    [(''CONTINUE'', Num 100), (''SWITCHING_PROTOCOLS'', Num 101), (''PROCESSING'', Num 102),
     (''OK'', Num 200), (''CREATED'', Num 201), (''ACCEPTED'', Num 202),
     (''NON_AUTHORITATIVE_INFORMATION'', Num 203), (''NO_CONTENT'', Num 204), (''RESET_CONTENT'', Num 205),
     (''PARTIAL_CONTENT'', Num 206), (''MULTI_STATUS'', Num 207), (''ALREADY_REPORTED'', Num 208),
     (''IM_USED'', Num 226), (''MULTIPLE_CHOICES'', Num 300), (''MOVED_PERMANENTLY'', Num 301),
     (''FOUND'', Num 302), (''SEE_OTHER'', Num 303), (''NOT_MODIFIED'', Num 304),
     (''USE_PROXY'', Num 305), (''TEMPORARY_REDIRECT'', Num 307), (''PERMANENT_REDIRECT'', Num 308),
     (''BAD_REQUEST'', Num 400), (''UNAUTHORIZED'', Num 401), (''PAYMENT_REQUIRED'', Num 402),
     (''FORBIDDEN'', Num 403), (''NOT_FOUND'', Num 404), (''METHOD_NOT_ALLOWED'', Num 405),
     (''NOT_ACCEPTABLE'', Num 406), (''PROXY_AUTHENTICATION_REQUIRED'', Num 407), (''REQUEST_TIMEOUT'', Num 408),
     (''CONFLICT'', Num 409), (''GONE'', Num 410), (''LENGTH_REQUIRED'', Num 411),
     (''PRECONDITION_FAILED'', Num 412), (''PAYLOAD_TOO_LARGE'', Num 413), (''URI_TOO_LONG'', Num 414),
     (''UNSUPPORTED_MEDIA_TYPE'', Num 415), (''RANGE_NOT_SATISFIABLE'', Num 416), (''EXPECTATION_FAILED'', Num 417),
     (''I_M_A_TEAPOT'', Num 418), (''MISDIRECTED_REQUEST'', Num 421), (''UNPROCESSABLE_ENTITY'', Num 422),
     (''LOCKED'', Num 423), (''FAILED_DEPENDENCY'', Num 424), (''UNORDERED_COLLECTION'', Num 425),
     (''UPGRADE_REQUIRED'', Num 426), (''PRECONDITION_REQUIRED'', Num 428), (''TOO_MANY_REQUESTS'', Num 429),
     (''REQUEST_HEADER_FIELDS_TOO_LARGE'', Num 431), (''UNAVAILABLE_FOR_LEGAL_REASONS'', Num 451), (''INTERNAL_SERVER_ERROR'', Num 500),
     (''NOT_IMPLEMENTED'', Num 501), (''BAD_GATEWAY'', Num 502), (''SERVICE_UNAVAILABLE'', Num 503),
     (''GATEWAY_TIMEOUT'', Num 504), (''HTTP_VERSION_NOT_SUPPORTED'', Num 505), (''VARIANT_ALSO_NEGOTIATES'', Num 506),
     (''INSUFFICIENT_STORAGE'', Num 507), (''LOOP_DETECTED'', Num 508), (''BANDWIDTH_LIMIT_EXCEEDED'', Num 509),
     (''NOT_EXTENDED'', Num 510), (''NETWORK_AUTHENTICATION_REQUIRED'', Num 511)]"
  by (simp add: http_STATUS_CODES_def reversed_entries_def phrase_entries_def
      parse_dec_def unit_of_def reverse_name_def toUpperCase_def replace_def
      M_REJECT_CHARS_def is_lower_def is_upper_def is_digit_def char_of_eq_iff)

lemma ascending_keys_http: "ascending (map fst http_STATUS_CODES)"
  by (simp add: ascending_def array_index_def http_STATUS_CODES_def parse_dec_def is_digit_def
      unit_of_def)

lemma distinct_keys_http: "distinct (map fst http_STATUS_CODES)"
  using ascending_keys_http by (rule ascending_distinct)

lemma entries_http:
  "list_all (\<lambda>(k, v). numeral_key k \<and> (case v of Str p \<Rightarrow> True | _ \<Rightarrow> False)) http_STATUS_CODES"
  by (simp add: http_STATUS_CODES_def numeral_key_def is_digit_def unit_of_def)

lemma distinct_names_http: "distinct (map fst (reversed_entries http_STATUS_CODES))"
  unfolding reversed_entries_http by simp

lemma names_http:
  "list_all (\<lambda>(nm, n). nm \<noteq> [] \<and> is_upper (hd nm)) (reversed_entries http_STATUS_CODES)"
  unfolding reversed_entries_http by (simp add: is_upper_def unit_of_def)

lemma upper_not_numeral: "nm \<noteq> [] \<Longrightarrow> is_upper (hd nm) \<Longrightarrow> \<not> numeral_key nm"
  by (cases nm) (auto simp: numeral_key_def is_upper_def is_digit_def)

lemma well_formed_http: "well_formed http_STATUS_CODES"
proof -
  have "list_all (\<lambda>(nm, n). \<not> numeral_key nm) (reversed_entries http_STATUS_CODES)"
    using names_http by (auto simp: list_all_iff upper_not_numeral)
  then show ?thesis
    using ascending_keys_http entries_http distinct_names_http by (simp add: well_formed_def)
qed

lemma STATUS_CODES_loaded:
  "reverse_map http_STATUS_CODES = Inr STATUS_CODES"
  "map_of STATUS_CODES = map_of http_STATUS_CODES ++ map_of (reversed_entries http_STATUS_CODES)"
proof -
  from reverse_map_well_formed [OF well_formed_http] obtain sc where
    sc: "reverse_map http_STATUS_CODES = Inr sc"
        "map_of sc = map_of http_STATUS_CODES ++ map_of (reversed_entries http_STATUS_CODES)"
    by blast
  then have "STATUS_CODES = sc" by (simp add: STATUS_CODES_def)
  then show "reverse_map http_STATUS_CODES = Inr STATUS_CODES"
    and "map_of STATUS_CODES = map_of http_STATUS_CODES ++ map_of (reversed_entries http_STATUS_CODES)"
    using sc by simp_all
qed

lemma js_get_STATUS_CODES:
  "js_get STATUS_CODES k =
     (case map_of (reversed_entries http_STATUS_CODES) k of
        Some v \<Rightarrow> v
      | None \<Rightarrow> js_get http_STATUS_CODES k)"
  by (simp add: js_get_def STATUS_CODES_loaded(2) map_add_def split: option.splits)

lemma STATUS_CODES_names:
  "js_get STATUS_CODES ''BAD_REQUEST'' = Num 400"
  "js_get STATUS_CODES ''UNAUTHORIZED'' = Num 401"
  "js_get STATUS_CODES ''NOT_FOUND'' = Num 404"
  "js_get STATUS_CODES ''INTERNAL_SERVER_ERROR'' = Num 500"
  unfolding js_get_STATUS_CODES reversed_entries_http by simp_all

lemma js_get_STATUS_CODES_numeral:
  assumes "k \<noteq> []" and "\<not> is_upper (hd k)"
  shows "js_get STATUS_CODES k = js_get http_STATUS_CODES k"
proof -
  have "k \<notin> fst ` set (reversed_entries http_STATUS_CODES)"
    using names_http assms by (auto simp: list_all_iff)
  then have "map_of (reversed_entries http_STATUS_CODES) k = None"
    by (simp add: map_of_eq_None_iff)
  then show ?thesis by (simp add: js_get_STATUS_CODES)
qed

subsection \<open>The reverse map\<close>

lemma reverse_map_round_trip:
  assumes wf: "well_formed base"
  shows "\<exists>sc. reverse_map base = Inr sc
           \<and> (\<forall>(k, v) \<in> set base. js_get sc k = v)
           \<and> (\<forall>(k, p) \<in> set (phrase_entries base).
                 js_get sc (reverse_name p) = Num (int (parse_dec k)))"
proof -
  from reverse_map_well_formed [OF wf] obtain sc where
    run: "reverse_map base = Inr sc" and
    m: "map_of sc = map_of base ++ map_of (reversed_entries base)"
    by blast
  have asc: "ascending (map fst base)"
    and a: "list_all (\<lambda>(k, v). numeral_key k \<and> (case v of Str p \<Rightarrow> True | _ \<Rightarrow> False)) base"
    and dn: "distinct (map fst (reversed_entries base))"
    and nn: "list_all (\<lambda>(nm, n). \<not> numeral_key nm) (reversed_entries base)"
    using wf by (auto simp: well_formed_def)
  have d: "distinct (map fst base)"
    using asc by (rule ascending_distinct)
  have keys: "\<forall>(k, v) \<in> set base. js_get sc k = v"
  proof (clarify)
    fix k v assume kv: "(k, v) \<in> set base"
    then have "numeral_key k" using a by (auto simp: list_all_iff)
    then have "k \<notin> fst ` set (reversed_entries base)"
      using nn by (auto simp: list_all_iff)
    then have "map_of (reversed_entries base) k = None"
      by (simp add: map_of_eq_None_iff)
    moreover have "map_of base k = Some v" using d kv by simp
    ultimately show "js_get sc k = v" by (simp add: js_get_def m map_add_def)
  qed
  have names: "\<forall>(k, p) \<in> set (phrase_entries base).
                 js_get sc (reverse_name p) = Num (int (parse_dec k))"
  proof (clarify)
    fix k p assume "(k, p) \<in> set (phrase_entries base)"
    then have "(reverse_name p, Num (int (parse_dec k))) \<in> set (reversed_entries base)"
      by (force simp: reversed_entries_def)
    then have "map_of (reversed_entries base) (reverse_name p) = Some (Num (int (parse_dec k)))"
      using dn by simp
    then show "js_get sc (reverse_name p) = Num (int (parse_dec k))"
      by (simp add: js_get_def m map_add_def)
  qed
  show ?thesis using run keys names by blast
qed

text \<open>
  Claim C8. Loading the module succeeds on the runtime's table, and afterwards every
  entry of that table, a code \<open>c\<close> with its phrase \<open>p\<close>, is still there, while the key
  made from \<open>p\<close> by replacing each character outside \<open>[a-zA-Z0-9_]\<close> with an underscore
  and upper-casing maps to the number \<open>c\<close>.
\<close>

theorem STATUS_CODES_round_trip:
  "reverse_map http_STATUS_CODES = Inr STATUS_CODES \<and>
   (\<forall>(c, v) \<in> set http_STATUS_CODES.
      \<exists>p n. v = Str p \<and> Number (Str c) = Inr (Num n)
        \<and> js_get STATUS_CODES c = Str p
        \<and> js_get STATUS_CODES (toUpperCase (replace p M_REJECT_CHARS ''_'')) = Num n)"
proof -
  from reverse_map_round_trip [OF well_formed_http] obtain sc where
    run: "reverse_map http_STATUS_CODES = Inr sc" and
    keys: "\<forall>(k, v) \<in> set http_STATUS_CODES. js_get sc k = v" and
    names: "\<forall>(k, p) \<in> set (phrase_entries http_STATUS_CODES).
              js_get sc (reverse_name p) = Num (int (parse_dec k))"
    by blast
  have sc: "sc = STATUS_CODES" using run by (simp add: STATUS_CODES_def)
  have "\<exists>p n. v = Str p \<and> Number (Str c) = Inr (Num n)
          \<and> js_get STATUS_CODES c = Str p
          \<and> js_get STATUS_CODES (toUpperCase (replace p M_REJECT_CHARS ''_'')) = Num n"
    if cv: "(c, v) \<in> set http_STATUS_CODES" for c v
  proof -
    from cv entries_http have nk: "numeral_key c" and "case v of Str p \<Rightarrow> True | _ \<Rightarrow> False"
      by (auto simp: list_all_iff)
    then obtain p where v: "v = Str p" by (cases v) auto
    have "(c, p) \<in> set (phrase_entries http_STATUS_CODES)"
      using cv v by (force simp: phrase_entries_def)
    then have "js_get sc (reverse_name p) = Num (int (parse_dec c))"
      using names by auto
    moreover have "js_get sc c = Str p" using keys cv v by auto
    ultimately show ?thesis
      using v Number_numeral_key [OF nk] by (auto simp: sc reverse_name_def)
  qed
  then show ?thesis using run sc by auto
qed

theorem STATUS_CODES_round_trip_witness:
  "(''404'', Str ''Not Found'') \<in> set http_STATUS_CODES
   \<and> js_get STATUS_CODES ''404'' = Str ''Not Found''
   \<and> js_get STATUS_CODES ''NOT_FOUND'' = Num 404"
proof -
  have mem: "(''404'', Str ''Not Found'') \<in> set http_STATUS_CODES"
    by (simp add: http_STATUS_CODES_def)
  have nm: "toUpperCase (replace ''Not Found'' M_REJECT_CHARS ''_'') = ''NOT_FOUND''"
    by (simp add: toUpperCase_def replace_def M_REJECT_CHARS_def is_lower_def is_upper_def
        is_digit_def unit_of_def char_of_eq_iff)
  have num: "Number (Str ''404'') = Inr (Num 404)"
    using Number_numeral_key [of "''404''"]
    by (simp add: numeral_key_def is_digit_def unit_of_def parse_dec_def)
  from STATUS_CODES_round_trip mem
  have "\<exists>p n. Str ''Not Found'' = Str p \<and> Number (Str ''404'') = Inr (Num n)
          \<and> js_get STATUS_CODES ''404'' = Str p
          \<and> js_get STATUS_CODES (toUpperCase (replace p M_REJECT_CHARS ''_'')) = Num n"
    by fast
  then show ?thesis using mem nm num by auto
qed

subsection \<open>Decimal keys\<close>

lemma Number_small: "\<bar>i\<bar> \<le> 2 ^ 53 \<Longrightarrow> Number (Num i) = Inr (Num i)"
  by (simp add: number_of_small)

lemma String_js_small: "\<bar>i\<bar> \<le> 2 ^ 53 \<Longrightarrow> String_js (Num i) = dec_int i"
  by (simp add: number_text_small)

lemma minus_not_digit: "\<not> is_digit (CHR ''-'')"
  by (simp add: is_digit_def unit_of_def)

lemma dec_int_key:
  assumes "numeral_key (dec_int c)"
  shows "\<bar>c\<bar> \<le> 2 ^ 53"
proof (cases "c < 0")
  case True
  with assms show ?thesis by (simp add: numeral_key_def dec_int_def minus_not_digit)
next
  case False
  with assms have "length (dec_nat (nat c)) \<le> 15"
    by (simp add: numeral_key_def dec_int_def)
  then have "(10::nat) ^ length (dec_nat (nat c)) \<le> 10 ^ 15"
    by (intro power_increasing) simp_all
  with dec_nat_bound [of "nat c"] have "nat c < 10 ^ 15" by (rule less_le_trans)
  then have "c < 10 ^ 15" by simp
  with False show ?thesis by simp
qed

lemma status_code_small:
  assumes "(dec_int c, v) \<in> set http_STATUS_CODES"
  shows "\<bar>c\<bar> \<le> 2 ^ 53"
proof -
  from assms entries_http have "numeral_key (dec_int c)"
    by (force simp: list_all_iff)
  then show ?thesis by (rule dec_int_key)
qed

lemma js_get_http_member:
  "(k, v) \<in> set http_STATUS_CODES \<Longrightarrow> js_get http_STATUS_CODES k = v"
  using distinct_keys_http by (simp add: js_get_def)

lemma js_get_http_absent:
  "k \<notin> set (Object_keys http_STATUS_CODES) \<Longrightarrow> js_get http_STATUS_CODES k = Undefined"
proof -
  assume "k \<notin> set (Object_keys http_STATUS_CODES)"
  then have "map_of http_STATUS_CODES k = None"
    by (simp add: Object_keys_def map_of_eq_None_iff [THEN iffD2])
  then show ?thesis by (simp add: js_get_def)
qed

lemma http_values:
  "k \<in> set (Object_keys http_STATUS_CODES) \<Longrightarrow> \<exists>p. (k, Str p) \<in> set http_STATUS_CODES"
proof -
  assume "k \<in> set (Object_keys http_STATUS_CODES)"
  then obtain v where kv: "(k, v) \<in> set http_STATUS_CODES"
    by (auto simp: Object_keys_def)
  with entries_http have "case v of Str p \<Rightarrow> True | _ \<Rightarrow> False"
    by (auto simp: list_all_iff)
  then obtain p where "v = Str p" by (cases v) auto
  with kv show ?thesis by blast
qed

lemma reversed_values:
  "map_of (reversed_entries base) k = Some v \<Longrightarrow> \<exists>i. v = Num i"
  by (auto simp: reversed_entries_def dest!: map_of_SomeD)

lemma digit_not_upper: "is_digit c \<Longrightarrow> \<not> is_upper c"
  by (simp add: is_digit_def is_upper_def)

text \<open>The entries of the module's table that hold a phrase are those of the runtime's table.\<close>

lemma status_phrase:
  "js_get STATUS_CODES k = Str p \<longleftrightarrow> (k, Str p) \<in> set http_STATUS_CODES"
proof
  assume a: "js_get STATUS_CODES k = Str p"
  show "(k, Str p) \<in> set http_STATUS_CODES"
  proof (cases "map_of (reversed_entries http_STATUS_CODES) k")
    case None
    with a have "js_get http_STATUS_CODES k = Str p" by (simp add: js_get_STATUS_CODES)
    then have "map_of http_STATUS_CODES k = Some (Str p)"
      by (simp add: js_get_def split: option.splits)
    then show ?thesis by (rule map_of_SomeD)
  next
    case (Some v)
    with reversed_values obtain i where "v = Num i" by blast
    with a Some show ?thesis by (simp add: js_get_STATUS_CODES)
  qed
next
  assume m: "(k, Str p) \<in> set http_STATUS_CODES"
  with entries_http have "numeral_key k" by (auto simp: list_all_iff)
  then have "k \<noteq> []" "\<not> is_upper (hd k)"
    by (cases k; simp add: numeral_key_def digit_not_upper)+
  from js_get_STATUS_CODES_numeral [OF this] js_get_http_member [OF m]
  show "js_get STATUS_CODES k = Str p" by simp
qed

subsection \<open>Looking up codes\<close>

lemma number_of_number: "is_number (number_of v)"
  by (simp add: number_of_def Let_def split: option.split)

lemma unsigned_literal_number: "is_number (unsigned_literal neg s)"
  by (simp add: unsigned_literal_def number_of_number split: option.split)

lemma StringToNumber_number: "is_number (StringToNumber s)"
  by (simp add: StringToNumber_def Let_def number_of_number unsigned_literal_number
      split: option.split list.split)

lemma Number_number: "Number v = Inr n \<Longrightarrow> is_number n"
  by (cases v) (auto simp: number_of_number StringToNumber_number split: if_splits)

lemma HTTPError_known:
  assumes "Number c0 = Inr n"
      and "(String_js (js_or n (Num 500)), Str p) \<in> set http_STATUS_CODES"
  shows "HTTPError stk c0 m md =
           Inr \<lparr> code = js_or n (Num 500), message = js_or m (Str p), stack = stk,
                 name = replace p M_REJECT_CHARS NOTHING, metadata = js_or md (Obj []) \<rparr>"
  using assms(1) status_phrase [THEN iffD2, OF assms(2)]
  by (simp add: HTTPError_def STATUS_CODES_names(4) del: String_js.simps)

lemma HTTPError_unknown:
  assumes "Number c0 = Inr n"
      and "String_js (js_or n (Num 500)) \<notin> set (Object_keys http_STATUS_CODES)"
  shows "HTTPError stk c0 m md = Inl TypeError"
proof -
  have "\<forall>p. js_get STATUS_CODES (String_js (js_or n (Num 500))) \<noteq> Str p"
  proof (intro allI notI)
    fix p
    assume "js_get STATUS_CODES (String_js (js_or n (Num 500))) = Str p"
    then have "(String_js (js_or n (Num 500)), Str p) \<in> set http_STATUS_CODES"
      by (simp only: status_phrase)
    then have "String_js (js_or n (Num 500)) \<in> set (Object_keys http_STATUS_CODES)"
      by (force simp: Object_keys_def)
    with assms(2) show False by simp
  qed
  then show ?thesis
    using assms(1)
    by (cases "js_get STATUS_CODES (String_js (js_or n (Num 500)))")
      (simp_all add: HTTPError_def STATUS_CODES_names(4) del: String_js.simps)
qed


lemma HTTPError_Inr:
  assumes "HTTPError stk c0 m md = Inr e"
  shows "\<exists>n p. Number c0 = Inr n
           \<and> (String_js (js_or n (Num 500)), Str p) \<in> set http_STATUS_CODES
           \<and> e = \<lparr> code = js_or n (Num 500), message = js_or m (Str p), stack = stk,
                    name = replace p M_REJECT_CHARS NOTHING, metadata = js_or md (Obj []) \<rparr>"
proof -
  from assms obtain n where n: "Number c0 = Inr n"
    by (cases "Number c0") (simp_all add: HTTPError_def)
  show ?thesis
  proof (cases "String_js (js_or n (Num 500)) \<in> set (Object_keys http_STATUS_CODES)")
    case True
    then obtain p where p: "(String_js (js_or n (Num 500)), Str p) \<in> set http_STATUS_CODES"
      using http_values by blast
    from HTTPError_known [OF n p, of stk m md] assms n p show ?thesis by auto
  next
    case False
    from HTTPError_unknown [OF n False, of stk m md] assms show ?thesis by simp
  qed
qed

lemma replace_NOTHING: "replace p re NOTHING = filter (\<lambda>c. \<not> re c) p"
  by (induction p) (simp_all add: replace_def NOTHING_def)

lemma zero_not_status: "''0'' \<notin> set (Object_keys http_STATUS_CODES)"
  by (simp add: Object_keys_def http_STATUS_CODES_def)

lemma dec_int_0: "dec_int 0 = ''0''"
  by (simp add: dec_int_def dec_nat.simps digit_char_def char_of_eq_iff)

text \<open>The constructor on a code of the runtime's table.\<close>

lemma HTTPError_status:
  assumes "(dec_int c, Str p) \<in> set http_STATUS_CODES"
  shows "HTTPError stk (Num c) m md =
           Inr \<lparr> code = Num c, message = js_or m (Str p), stack = stk,
                 name = replace p M_REJECT_CHARS NOTHING, metadata = js_or md (Obj []) \<rparr>"
proof -
  have "c \<noteq> 0"
  proof
    assume "c = 0"
    then have "''0'' \<in> set (Object_keys http_STATUS_CODES)"
      using assms by (force simp: dec_int_0 Object_keys_def)
    then show False using zero_not_status by simp
  qed
  then have o: "js_or (Num c) (Num 500) = Num c" by (simp add: js_or_def)
  have s: "\<bar>c\<bar> \<le> 2 ^ 53" by (rule status_code_small [OF assms])
  have "(String_js (js_or (Num c) (Num 500)), Str p) \<in> set http_STATUS_CODES"
    unfolding o String_js_small [OF s] by (rule assms)
  from HTTPError_known [OF Number_small [OF s] this, of stk m md] show ?thesis
    by (simp only: o)
qed

subsection \<open>The constructor\<close>

text \<open>
  Claim C6, as the code has it. For a standard status code, the \<open>name\<close> of the error is
  the status phrase with every character outside \<open>[a-zA-Z0-9_]\<close> removed; the letters keep
  their case.
\<close>

theorem HTTPError_name:
  assumes "(dec_int c, Str p) \<in> set http_STATUS_CODES"
  shows "\<exists>e. HTTPError stk (Num c) m md = Inr e \<and> code e = Num c
           \<and> name e = filter (\<lambda>ch. \<not> M_REJECT_CHARS ch) p"
  using HTTPError_status [OF assms, of stk m md] by (simp add: replace_NOTHING)

theorem HTTPError_name_witness:
  "(dec_int 400, Str ''Bad Request'') \<in> set http_STATUS_CODES
   \<and> (\<exists>e. HTTPError ''at main'' (Num 400) Undefined Undefined = Inr e \<and> code e = Num 400
          \<and> name e = ''BadRequest'')"
proof -
  have k: "dec_int 400 = ''400''"
    by (simp add: dec_int_def dec_nat.simps digit_char_def char_of_eq_iff)
  have mem: "(dec_int 400, Str ''Bad Request'') \<in> set http_STATUS_CODES"
    unfolding k by (simp add: http_STATUS_CODES_def)
  have "filter (\<lambda>ch. \<not> M_REJECT_CHARS ch) ''Bad Request'' = ''BadRequest''"
    by (simp add: M_REJECT_CHARS_def is_lower_def is_upper_def is_digit_def unit_of_def)
  then show ?thesis
    using HTTPError_name [OF mem, of "''at main''" Undefined Undefined] mem by simp
qed

theorem HTTPError_name_counterexample:
  "map_sum id name (HTTPError ''at main'' (Num 400) Undefined Undefined) = Inr ''BadRequest''
   \<and> js_get STATUS_CODES ''400'' = Str ''Bad Request''
   \<and> toUpperCase ''Bad Request'' = ''BAD REQUEST''
   \<and> ''BadRequest'' \<noteq> toUpperCase ''Bad Request''"
proof -
  have k: "dec_int 400 = ''400''"
    by (simp add: dec_int_def dec_nat.simps digit_char_def char_of_eq_iff)
  have mem: "(dec_int 400, Str ''Bad Request'') \<in> set http_STATUS_CODES"
    unfolding k by (simp add: http_STATUS_CODES_def)
  have f: "replace ''Bad Request'' M_REJECT_CHARS NOTHING = ''BadRequest''"
    by (simp add: replace_NOTHING M_REJECT_CHARS_def is_lower_def is_upper_def is_digit_def unit_of_def)
  have u: "toUpperCase ''Bad Request'' = ''BAD REQUEST''"
    by (simp add: toUpperCase_def is_lower_def unit_of_def char_of_eq_iff)
  have g: "js_get STATUS_CODES ''400'' = Str ''Bad Request''"
    using status_phrase [THEN iffD2, OF mem] by (simp only: k)
  show ?thesis
    using HTTPError_status [OF mem, of "''at main''" Undefined Undefined] f u g
    by simp
qed

lemma dec_int_500: "dec_int 500 = ''500''"
  by (simp add: dec_int_def dec_nat.simps digit_char_def char_of_eq_iff)

lemma String_js_500: "String_js (Num 500) = ''500''"
  using String_js_small [of 500] by (simp only: dec_int_500) simp

lemma internal_server_error:
  "(String_js (Num 500), Str ''Internal Server Error'') \<in> set http_STATUS_CODES"
  unfolding String_js_500 by (simp add: http_STATUS_CODES_def)

text \<open>A code that \<open>Number\<close> turns into a falsy number is replaced by 500.\<close>

lemma HTTPError_fallback:
  assumes "\<not> truthy c0 \<or> Number c0 = Inr NaN \<or> Number c0 = Inr (Num 0)"
  shows "HTTPError stk c0 m md =
           Inr \<lparr> code = Num 500, message = js_or m (Str ''Internal Server Error''), stack = stk,
                 name = ''InternalServerError'', metadata = js_or md (Obj []) \<rparr>"
proof -
  have nm: "replace ''Internal Server Error'' M_REJECT_CHARS NOTHING = ''InternalServerError''"
    by (simp add: replace_NOTHING M_REJECT_CHARS_def is_lower_def is_upper_def is_digit_def unit_of_def)
  from assms falsy_Number [of c0] consider "Number c0 = Inr NaN" | "Number c0 = Inr (Num 0)"
    by blast
  then show ?thesis
  proof cases
    case 1
    have o: "js_or NaN (Num 500) = Num 500" by (simp add: js_or_def)
    from internal_server_error have "(String_js (js_or NaN (Num 500)), Str ''Internal Server Error'') \<in> set http_STATUS_CODES"
      by (simp only: o)
    from HTTPError_known [OF 1 this, of stk m md] show ?thesis by (simp only: o nm)
  next
    case 2
    have o: "js_or (Num 0) (Num 500) = Num 500" by (simp add: js_or_def)
    from internal_server_error have "(String_js (js_or (Num 0) (Num 500)), Str ''Internal Server Error'') \<in> set http_STATUS_CODES"
      by (simp only: o)
    from HTTPError_known [OF 2 this, of stk m md] show ?thesis by (simp only: o nm)
  qed
qed



lemma dec_int_samples:
  "dec_int 400 = ''400''" "dec_int 401 = ''401''" "dec_int 404 = ''404''"
  "dec_int 502 = ''502''" "dec_int 504 = ''504''" "dec_int 999 = ''999''"
  by (simp_all add: dec_int_def dec_nat.simps digit_char_def char_of_eq_iff)

lemma String_js_samples:
  "String_js (Num 400) = ''400''" "String_js (Num 999) = ''999''"
  using String_js_small [of 400] String_js_small [of 999]
  by (simp_all only: dec_int_samples) simp_all


subsection \<open>The subclasses and the module's exports\<close>

lemma status_entries:
  "(dec_int 400, Str ''Bad Request'') \<in> set http_STATUS_CODES"
  "(dec_int 401, Str ''Unauthorized'') \<in> set http_STATUS_CODES"
  "(dec_int 404, Str ''Not Found'') \<in> set http_STATUS_CODES"
  "(dec_int 500, Str ''Internal Server Error'') \<in> set http_STATUS_CODES"
  "(dec_int 502, Str ''Bad Gateway'') \<in> set http_STATUS_CODES"
  "(dec_int 504, Str ''Gateway Timeout'') \<in> set http_STATUS_CODES"
  unfolding dec_int_samples dec_int_500 by (simp_all add: http_STATUS_CODES_def)




subsection \<open>The terminal error handler\<close>

lemma serialize_defined:
  "v \<noteq> Undefined \<Longrightarrow> \<exists>t. SerializeJSONProperty ind v = Some t"
  by (cases v) (simp_all add: Let_def del: String_js.simps isFinite.simps)

lemma js_or_defined: "b \<noteq> Undefined \<Longrightarrow> js_or a b \<noteq> Undefined"
  by (auto simp: js_or_def)

lemma infinity_not_status:
  "''Infinity'' \<notin> set (Object_keys http_STATUS_CODES)"
  "''-Infinity'' \<notin> set (Object_keys http_STATUS_CODES)"
  by (simp_all add: Object_keys_def http_STATUS_CODES_def)

text \<open>A number whose text is a key of the status table is serialised as that text.\<close>

lemma status_code_text:
  assumes "is_number v" and "truthy v"
      and "String_js v \<in> set (Object_keys http_STATUS_CODES)"
  shows "SerializeJSONProperty ind v = Some (String_js v)"
proof (cases v)
  case (Num i)
  have "isFinite (Num i)"
    using not_finite_text(1) [of i] assms(3) infinity_not_status unfolding Num by metis
  then show ?thesis unfolding Num by (simp del: String_js.simps isFinite.simps)
next
  case (Frac r)
  have "isFinite (Frac r)"
    using not_finite_text(2) [of r] assms(3) infinity_not_status unfolding Frac by metis
  then show ?thesis unfolding Frac by (simp del: String_js.simps isFinite.simps)
next
  case PosInfinity
  with assms(3) infinity_not_status show ?thesis by simp
next
  case NegInfinity
  with assms(3) infinity_not_status show ?thesis by simp
qed (use assms(1,2) in simp_all)

lemma this_code_number:
  assumes "Number c0 = Inr n"
  shows "is_number (js_or n (Num 500))" and "truthy (js_or n (Num 500))"
  using Number_number [OF assms] by (simp_all add: js_or_def)

lemma stringify_four_fields:
  assumes "SerializeJSONProperty ''  '' c = Some ct"
      and "SerializeJSONProperty ''  '' msg = Some mt"
      and "SerializeJSONProperty ''  '' md = Some mdt"
  shows "JSON_stringify (Obj [(''code'', c), (''name'', Str nm), (''message'', msg), (''metadata'', md)])
           = Some (error_document ct (QuoteJSONString nm) mt mdt)"
  using assms by (simp add: JSON_stringify_def error_document_def Let_def)

lemma toLowerCase_headers:
  "toLowerCase ''Content-Type'' = ''content-type''"
  "toLowerCase ''Content-Length'' = ''content-length''"
  by (simp_all add: toLowerCase_def is_upper_def unit_of_def char_of_eq_iff)

lemma handler_instance:
  assumes "JSON_stringify (toJSON e) = Some content"
  shows "handler stk (HTTPError_instance e) req res =
           Inr (res\<lparr> ServerResponse.headers :=
                      js_set (js_set (ServerResponse.headers res) ''content-type'' (Str ''application/json''))
                        ''content-length'' (Num (int (length content))),
                    statusCode := js_or (code e) (Num 500),
                    chunks := chunks res @ [content],
                    ended := True,
                    body := Str (concat (chunks res @ [content])) \<rparr>, e)"
  using assms
  by (simp add: handler_def Let_def setHeader_def writeHead_def write_chunk_def end_response_def
      toLowerCase_headers STATUS_CODES_names(4))

lemma handler_wrap:
  "handler stk (Error x) req res =
     (case HTTPError stk (js_or (code x) (Num 500)) (message x) Undefined of
        Inl ex \<Rightarrow> Inl ex
      | Inr e \<Rightarrow> handler stk (HTTPError_instance e) req res)"
  by (simp add: handler_def STATUS_CODES_names(4) split: sum.splits)

lemma constructed_document:
  assumes "HTTPError stk ca m md = Inr e"
  shows "\<exists>mt mdt. truthy (code e)
           \<and> String_js (code e) \<in> set (Object_keys http_STATUS_CODES)
           \<and> SerializeJSONProperty ''  '' (message e) = Some mt
           \<and> SerializeJSONProperty ''  '' (metadata e) = Some mdt
           \<and> JSON_stringify (toJSON e)
               = Some (error_document (String_js (code e)) (QuoteJSONString (name e)) mt mdt)"
proof -
  from HTTPError_Inr [OF assms] obtain n p where
    n: "Number ca = Inr n" and
    p: "(String_js (js_or n (Num 500)), Str p) \<in> set http_STATUS_CODES" and
    e: "e = \<lparr> code = js_or n (Num 500), message = js_or m (Str p), stack = stk,
              name = replace p M_REJECT_CHARS NOTHING, metadata = js_or md (Obj []) \<rparr>"
    by blast
  have c: "code e = js_or n (Num 500)" by (simp add: e)
  have k: "String_js (code e) \<in> set (Object_keys http_STATUS_CODES)"
    unfolding c using p by (force simp: Object_keys_def)
  have t: "truthy (code e)" "is_number (code e)"
    unfolding c using this_code_number [OF n] by simp_all
  have "message e \<noteq> Undefined" "metadata e \<noteq> Undefined"
    by (simp_all add: e js_or_defined)
  then obtain mt mdt where
    s: "SerializeJSONProperty ''  '' (message e) = Some mt"
       "SerializeJSONProperty ''  '' (metadata e) = Some mdt"
    using serialize_defined by blast
  have "SerializeJSONProperty ''  '' (code e) = Some (String_js (code e))"
    by (rule status_code_text [OF t(2) t(1) k])
  from stringify_four_fields [OF this s, of "name e"]
  have "JSON_stringify (toJSON e)
          = Some (error_document (String_js (code e)) (QuoteJSONString (name e)) mt mdt)"
    by (simp add: toJSON_def)
  with t(1) k s show ?thesis by blast
qed

lemma js_get_js_set: "js_get (js_set obj k v) k' = (if k' = k then v else js_get obj k')"
  by (simp add: js_get_def map_of_js_set)

lemma handler_constructed:
  assumes "HTTPError stk0 ca m md = Inr e"
  shows "\<exists>res' mt mdt.
           handler stk (HTTPError_instance e) req res = Inr (res', e)
           \<and> handler stk (HTTPError_instance (e\<lparr> stack := other \<rparr>)) req res
               = Inr (res', e\<lparr> stack := other \<rparr>)
           \<and> statusCode res' = code e \<and> ended res'
           \<and> js_get (ServerResponse.headers res') ''content-type'' = Str ''application/json''
           \<and> SerializeJSONProperty ''  '' (message e) = Some mt
           \<and> SerializeJSONProperty ''  '' (metadata e) = Some mdt
           \<and> body res' = Str (concat (chunks res)
                 @ error_document (String_js (code e)) (QuoteJSONString (name e)) mt mdt)"
proof -
  from constructed_document [OF assms] obtain mt mdt where
    c: "truthy (code e)" and
    s: "SerializeJSONProperty ''  '' (message e) = Some mt"
       "SerializeJSONProperty ''  '' (metadata e) = Some mdt" and
    j: "JSON_stringify (toJSON e)
          = Some (error_document (String_js (code e)) (QuoteJSONString (name e)) mt mdt)"
    by blast
  have j': "JSON_stringify (toJSON (e\<lparr> stack := other \<rparr>))
          = Some (error_document (String_js (code e)) (QuoteJSONString (name e)) mt mdt)"
    using j by (simp add: toJSON_def)
  have o: "js_or (code e) (Num 500) = code e"
    using c by (simp add: js_or_def)
  show ?thesis
    using s o
    by (simp add: handler_instance [OF j] handler_instance [OF j'] js_get_js_set)
qed

text \<open>The error the handler wraps a plain error in, when the code of that error is
  missing, falsy, or read as \<open>NaN\<close> or zero.\<close>

lemma wrapped_fallback:
  assumes "\<not> truthy c \<or> Number c = Inr NaN \<or> Number c = Inr (Num 0)"
  shows "HTTPError stk (js_or c (Num 500)) m Undefined =
           Inr \<lparr> code = Num 500, message = js_or m (Str ''Internal Server Error''), stack = stk,
                 name = ''InternalServerError'', metadata = Obj [] \<rparr>"
proof (cases "truthy c")
  case True
  with assms have "\<not> truthy (js_or c (Num 500)) \<or> Number (js_or c (Num 500)) = Inr NaN
      \<or> Number (js_or c (Num 500)) = Inr (Num 0)"
    by (simp add: js_or_def)
  from HTTPError_fallback [OF this, of stk m Undefined] show ?thesis
    by (simp add: js_or_def [of Undefined])
next
  case False
  have nm: "replace ''Internal Server Error'' M_REJECT_CHARS NOTHING = ''InternalServerError''"
    by (simp add: replace_NOTHING M_REJECT_CHARS_def is_lower_def is_upper_def is_digit_def unit_of_def)
  from False have "js_or c (Num 500) = Num 500" by (simp add: js_or_def)
  with HTTPError_status [OF status_entries(4), of stk m Undefined] show ?thesis
    by (simp add: nm js_or_def [of Undefined])
qed

text \<open>
  Claim C1, as the code has it. An error built by the \<open>HTTPError\<close> constructor is
  answered with its own code as the status and with a body that is the JSON text of
  exactly the four fields \<open>code\<close>, \<open>name\<close>, \<open>message\<close> and \<open>metadata\<close>; the stack of the
  error has no influence on the response. Any other error is first wrapped: its code is
  read as a number, with 500 standing in for a code that is missing, falsy, or read as
  \<open>NaN\<close> or zero, and in that case the response has the status 500; whenever the text of
  the resulting code is a key of the runtime's status table, the wrapped error is
  answered in the same way, with empty metadata. (A code outside that table is not
  covered by this statement.)
\<close>

theorem handler_response:
  "(HTTPError stk0 ca m md = Inr e \<longrightarrow>
      (\<exists>res' mt mdt.
          handler stk (HTTPError_instance e) req res = Inr (res', e)
          \<and> handler stk (HTTPError_instance (e\<lparr> stack := other \<rparr>)) req res
              = Inr (res', e\<lparr> stack := other \<rparr>)
          \<and> statusCode res' = code e \<and> ended res'
          \<and> js_get (ServerResponse.headers res') ''content-type'' = Str ''application/json''
          \<and> SerializeJSONProperty ''  '' (message e) = Some mt
          \<and> SerializeJSONProperty ''  '' (metadata e) = Some mdt
          \<and> body res' = Str (concat (chunks res)
                @ error_document (String_js (code e)) (QuoteJSONString (name e)) mt mdt)))
   \<and> (Number (js_or (code x) (Num 500)) = Inr n
        \<and> String_js (js_or n (Num 500)) \<in> set (Object_keys http_STATUS_CODES) \<longrightarrow>
      (\<exists>res' e' mt.
          HTTPError stk (js_or (code x) (Num 500)) (message x) Undefined = Inr e'
          \<and> handler stk (Error x) req res = Inr (res', e')
          \<and> code e' = js_or n (Num 500) \<and> statusCode res' = code e'
          \<and> ended res' \<and> metadata e' = Obj []
          \<and> SerializeJSONProperty ''  '' (message e') = Some mt
          \<and> body res' = Str (concat (chunks res)
                @ error_document (String_js (code e')) (QuoteJSONString (name e')) mt ''{}'')))
   \<and> (\<not> truthy (code x) \<or> Number (code x) = Inr NaN \<or> Number (code x) = Inr (Num 0) \<longrightarrow>
      (\<exists>res' e' mt.
          handler stk (Error x) req res = Inr (res', e')
          \<and> code e' = Num 500 \<and> name e' = ''InternalServerError'' \<and> metadata e' = Obj []
          \<and> statusCode res' = Num 500 \<and> ended res'
          \<and> SerializeJSONProperty ''  '' (message e') = Some mt
          \<and> body res' = Str (concat (chunks res)
                @ error_document ''500'' (QuoteJSONString ''InternalServerError'') mt ''{}'')))"
proof (intro conjI impI)
  assume "HTTPError stk0 ca m md = Inr e"
  from handler_constructed [OF this, where stk = stk and other = other and req = req and res = res]
  show "\<exists>res' mt mdt.
          handler stk (HTTPError_instance e) req res = Inr (res', e)
          \<and> handler stk (HTTPError_instance (e\<lparr> stack := other \<rparr>)) req res
              = Inr (res', e\<lparr> stack := other \<rparr>)
          \<and> statusCode res' = code e \<and> ended res'
          \<and> js_get (ServerResponse.headers res') ''content-type'' = Str ''application/json''
          \<and> SerializeJSONProperty ''  '' (message e) = Some mt
          \<and> SerializeJSONProperty ''  '' (metadata e) = Some mdt
          \<and> body res' = Str (concat (chunks res)
                @ error_document (String_js (code e)) (QuoteJSONString (name e)) mt mdt)"
    by blast
next
  assume a: "Number (js_or (code x) (Num 500)) = Inr n
        \<and> String_js (js_or n (Num 500)) \<in> set (Object_keys http_STATUS_CODES)"
  then have n: "Number (js_or (code x) (Num 500)) = Inr n" by simp
  from a obtain p where p: "(String_js (js_or n (Num 500)), Str p) \<in> set http_STATUS_CODES"
    using http_values by blast
  let ?e = "\<lparr> code = js_or n (Num 500), message = js_or (message x) (Str p), stack = stk,
              name = replace p M_REJECT_CHARS NOTHING, metadata = js_or Undefined (Obj []) \<rparr>"
  have w: "HTTPError stk (js_or (code x) (Num 500)) (message x) Undefined = Inr ?e"
    by (rule HTTPError_known [OF n p])
  from handler_constructed [OF w, where stk = stk and other = stk and req = req and res = res]
  obtain res' mt mdt where
    h: "handler stk (HTTPError_instance ?e) req res = Inr (res', ?e)"
       "statusCode res' = code ?e" "ended res'"
       "SerializeJSONProperty ''  '' (message ?e) = Some mt"
       "SerializeJSONProperty ''  '' (metadata ?e) = Some mdt"
       "body res' = Str (concat (chunks res)
           @ error_document (String_js (code ?e)) (QuoteJSONString (name ?e)) mt mdt)"
    by blast
  have mdt: "mdt = ''{}''" using h(5) by (simp add: js_or_def Let_def)
  have "handler stk (Error x) req res = Inr (res', ?e)"
    using h(1) by (simp add: handler_wrap w)
  then show "\<exists>res' e' mt.
          HTTPError stk (js_or (code x) (Num 500)) (message x) Undefined = Inr e'
          \<and> handler stk (Error x) req res = Inr (res', e')
          \<and> code e' = js_or n (Num 500) \<and> statusCode res' = code e'
          \<and> ended res' \<and> metadata e' = Obj []
          \<and> SerializeJSONProperty ''  '' (message e') = Some mt
          \<and> body res' = Str (concat (chunks res)
                @ error_document (String_js (code e')) (QuoteJSONString (name e')) mt ''{}'')"
    using w h(2,3,4,6) mdt
    by (intro exI [of _ res'] exI [of _ ?e] exI [of _ mt])
      (simp add: js_or_def [of Undefined] del: String_js.simps)
next
  assume "\<not> truthy (code x) \<or> Number (code x) = Inr NaN \<or> Number (code x) = Inr (Num 0)"
  note w = wrapped_fallback [OF this, of stk "message x"]
  let ?e = "\<lparr> code = Num 500, message = js_or (message x) (Str ''Internal Server Error''),
              stack = stk, name = ''InternalServerError'', metadata = Obj [] \<rparr>"
  from handler_constructed [OF w, where stk = stk and other = stk and req = req and res = res]
  obtain res' mt mdt where
    h: "handler stk (HTTPError_instance ?e) req res = Inr (res', ?e)"
       "statusCode res' = code ?e" "ended res'"
       "SerializeJSONProperty ''  '' (message ?e) = Some mt"
       "SerializeJSONProperty ''  '' (metadata ?e) = Some mdt"
       "body res' = Str (concat (chunks res)
           @ error_document (String_js (code ?e)) (QuoteJSONString (name ?e)) mt mdt)"
    by blast
  have mdt: "mdt = ''{}''" using h(5) by (simp add: Let_def)
  have b: "body res' = Str (concat (chunks res)
           @ error_document ''500'' (QuoteJSONString ''InternalServerError'') mt ''{}'')"
    using h(6) String_js_500 unfolding mdt by (simp del: String_js.simps)
  have "handler stk (Error x) req res = Inr (res', ?e)"
    using h(1) by (simp add: handler_wrap w)
  then show "\<exists>res' e' mt.
          handler stk (Error x) req res = Inr (res', e')
          \<and> code e' = Num 500 \<and> name e' = ''InternalServerError'' \<and> metadata e' = Obj []
          \<and> statusCode res' = Num 500 \<and> ended res'
          \<and> SerializeJSONProperty ''  '' (message e') = Some mt
          \<and> body res' = Str (concat (chunks res)
                @ error_document ''500'' (QuoteJSONString ''InternalServerError'') mt ''{}'')"
    using h(2,3,4) b
    by (intro exI [of _ res'] exI [of _ ?e] exI [of _ mt]) simp
qed

lemma not_found_name: "replace ''Not Found'' M_REJECT_CHARS NOTHING = ''NotFound''"
  by (simp add: replace_NOTHING M_REJECT_CHARS_def is_lower_def is_upper_def is_digit_def unit_of_def)

lemma String_js_404: "String_js (Num 404) = ''404''"
  using String_js_small [of 404] by (simp only: dec_int_samples) simp

theorem handler_response_witness:
  "HTTPError ''at f'' (Num 404) (Str ''GET /x'') Undefined
     = Inr \<lparr> code = Num 404, message = Str ''GET /x'', stack = ''at f'',
             name = ''NotFound'', metadata = Obj [] \<rparr>
   \<and> (\<exists>res'. handler ''at h''
          (HTTPError_instance \<lparr> code = Num 404, message = Str ''GET /x'', stack = ''at f'',
             name = ''NotFound'', metadata = Obj [] \<rparr>) () new_ServerResponse
          = Inr (res', \<lparr> code = Num 404, message = Str ''GET /x'', stack = ''at f'',
             name = ''NotFound'', metadata = Obj [] \<rparr>)
        \<and> statusCode res' = Num 404
        \<and> body res' = Str (error_document ''404'' (QuoteJSONString ''NotFound'')
                              (QuoteJSONString ''GET /x'') ''{}''))
   \<and> Number (js_or (Str ''4e2'') (Num 500)) = Inr (Num 400)
   \<and> String_js (js_or (Num 400) (Num 500)) \<in> set (Object_keys http_STATUS_CODES)
   \<and> (\<exists>res' e'. handler ''at h''
          (Error \<lparr> code = Str ''4e2'', message = Str ''boom'', stack = ''at g'' \<rparr>) () new_ServerResponse
          = Inr (res', e')
        \<and> statusCode res' = Num 400 \<and> code e' = Num 400)
   \<and> Number (Str ''42P01'') = Inr NaN
   \<and> (\<exists>res' e'. handler ''at h''
          (Error \<lparr> code = Str ''42P01'', message = Str ''no relation'', stack = ''at g'' \<rparr>) ()
            new_ServerResponse
          = Inr (res', e')
        \<and> statusCode res' = Num 500 \<and> code e' = Num 500
        \<and> body res' = Str (error_document ''500'' (QuoteJSONString ''InternalServerError'')
                              (QuoteJSONString ''no relation'') ''{}''))"
proof -
  let ?e = "\<lparr> code = Num 404, message = Str ''GET /x'', stack = ''at f'',
              name = ''NotFound'', metadata = Obj [] \<rparr>"
  let ?x = "\<lparr> code = Str ''4e2'', message = Str ''boom'', stack = ''at g'' \<rparr>"
  let ?y = "\<lparr> code = Str ''42P01'', message = Str ''no relation'', stack = ''at g'' \<rparr>"
  have e: "HTTPError ''at f'' (Num 404) (Str ''GET /x'') Undefined = Inr ?e"
    using HTTPError_status [OF status_entries(3), of "''at f''" "Str ''GET /x''" Undefined]
    by (simp add: not_found_name js_or_def)
  have n: "Number (js_or (code ?x) (Num 500)) = Inr (Num 400)"
    by (simp add: js_or_def StringToNumber_samples)
  have o: "js_or (Num 400) (Num 500) = Num 400" by (simp add: js_or_def)
  have k: "String_js (js_or (Num 400) (Num 500)) \<in> set (Object_keys http_STATUS_CODES)"
    unfolding o String_js_samples by (simp add: Object_keys_def http_STATUS_CODES_def)
  note inst = handler_response [where ?stk0.0 = "''at f''" and ca = "Num 404" and m = "Str ''GET /x''"
      and md = Undefined and e = ?e and stk = "''at h''" and req = "()" and res = new_ServerResponse
      and other = "''at f''"]
  from inst [where x = ?x and n = "Num 400"] e obtain res' mt mdt where
    a: "handler ''at h'' (HTTPError_instance ?e) () new_ServerResponse = Inr (res', ?e)"
       "statusCode res' = code ?e"
       "SerializeJSONProperty ''  '' (message ?e) = Some mt"
       "SerializeJSONProperty ''  '' (metadata ?e) = Some mdt"
       "body res' = Str (concat (chunks new_ServerResponse)
          @ error_document (String_js (code ?e)) (QuoteJSONString (name ?e)) mt mdt)"
    by blast
  have "body res' = Str (error_document ''404'' (QuoteJSONString ''NotFound'')
                              (QuoteJSONString ''GET /x'') ''{}'')"
    using a(3,4,5) String_js_404 by (simp add: new_ServerResponse_def Let_def del: String_js.simps)
  with a(1,2) have first: "\<exists>res'. handler ''at h'' (HTTPError_instance ?e) () new_ServerResponse = Inr (res', ?e)
        \<and> statusCode res' = Num 404
        \<and> body res' = Str (error_document ''404'' (QuoteJSONString ''NotFound'')
                              (QuoteJSONString ''GET /x'') ''{}'')"
    by (intro exI [of _ res']) simp
  from inst [where x = ?x and n = "Num 400"] n k obtain res2 e2 where
    b: "handler ''at h'' (Error ?x) () new_ServerResponse = Inr (res2, e2)"
       "code e2 = js_or (Num 400) (Num 500)" "statusCode res2 = code e2"
    by blast
  then have second: "\<exists>res' e'. handler ''at h'' (Error ?x) () new_ServerResponse = Inr (res', e')
        \<and> statusCode res' = Num 400 \<and> code e' = Num 400"
    using o by (intro exI [of _ res2] exI [of _ e2]) simp
  have y: "Number (code ?y) = Inr NaN" by (simp add: StringToNumber_samples)
  from inst [where x = ?y] y obtain res3 e3 mt3 where
    c: "handler ''at h'' (Error ?y) () new_ServerResponse = Inr (res3, e3)"
       "code e3 = Num 500" "statusCode res3 = Num 500"
       "SerializeJSONProperty ''  '' (message e3) = Some mt3"
       "body res3 = Str (concat (chunks new_ServerResponse)
          @ error_document ''500'' (QuoteJSONString ''InternalServerError'') mt3 ''{}'')"
    by blast
  have "HTTPError ''at h'' (js_or (code ?y) (Num 500)) (message ?y) Undefined
      = Inr \<lparr> code = Num 500, message = js_or (message ?y) (Str ''Internal Server Error''),
              stack = ''at h'', name = ''InternalServerError'', metadata = Obj [] \<rparr>"
    by (rule wrapped_fallback) (use y in simp)
  with c(1) have "message e3 = Str ''no relation''"
    by (auto simp: handler_wrap handler_def js_or_def split: sum.splits option.splits)
  with c(4) have "mt3 = QuoteJSONString ''no relation''" by simp
  with c have third: "\<exists>res' e'. handler ''at h'' (Error ?y) () new_ServerResponse = Inr (res', e')
        \<and> statusCode res' = Num 500 \<and> code e' = Num 500
        \<and> body res' = Str (error_document ''500'' (QuoteJSONString ''InternalServerError'')
                              (QuoteJSONString ''no relation'') ''{}'')"
    by (intro exI [of _ res3] exI [of _ e3]) (simp add: new_ServerResponse_def)
  have n': "Number (js_or (Str ''4e2'') (Num 500)) = Inr (Num 400)"
    using n by simp
  have y': "Number (Str ''42P01'') = Inr NaN" using y by simp
  show ?thesis
    using e first n' k second y' third by (simp only: simp_thms)
qed

theorem handler_response_counterexample:
  "handler ''at h'' (Error \<lparr> code = Num 999, message = Str ''boom'', stack = ''at g'' \<rparr>) ()
       new_ServerResponse = Inl TypeError
   \<and> map_sum id (statusCode \<circ> fst)
        (handler ''at h'' (Error \<lparr> code = Str ''ECONNREFUSED'', message = Str ''connect'',
           stack = ''at g'' \<rparr>) () new_ServerResponse) = Inr (Num 500)"
proof -
  have o: "js_or (Num 999) (Num 500) = Num 999" by (simp add: js_or_def)
  have n: "Number (Num 999) = Inr (Num 999)" by (rule Number_small) simp
  have k: "String_js (js_or (Num 999) (Num 500)) \<notin> set (Object_keys http_STATUS_CODES)"
    unfolding o String_js_samples by (simp add: Object_keys_def http_STATUS_CODES_def)
  have "HTTPError ''at h'' (Num 999) (Str ''boom'') Undefined = Inl TypeError"
    by (rule HTTPError_unknown [OF n k])
  then have first: "handler ''at h'' (Error \<lparr> code = Num 999, message = Str ''boom'', stack = ''at g'' \<rparr>) ()
       new_ServerResponse = Inl TypeError"
    by (simp add: handler_wrap o)
  let ?x = "\<lparr> code = Str ''ECONNREFUSED'', message = Str ''connect'', stack = ''at g'' \<rparr>"
  let ?e = "\<lparr> code = Num 500, message = js_or (message ?x) (Str ''Internal Server Error''),
              stack = ''at h'', name = ''InternalServerError'', metadata = Obj [] \<rparr>"
  have w: "HTTPError ''at h'' (js_or (code ?x) (Num 500)) (message ?x) Undefined = Inr ?e"
    by (rule wrapped_fallback) (simp add: StringToNumber_samples)
  from handler_constructed [OF w, where stk = "''at h''" and other = "''at h''" and req = "()"
      and res = new_ServerResponse]
  obtain res' where
    h: "handler ''at h'' (HTTPError_instance ?e) () new_ServerResponse = Inr (res', ?e)"
       "statusCode res' = code ?e"
    by blast
  have "handler ''at h'' (Error ?x) () new_ServerResponse = Inr (res', ?e)"
    using h(1) w by (simp add: handler_wrap)
  then have "map_sum id (statusCode \<circ> fst)
        (handler ''at h'' (Error ?x) () new_ServerResponse) = Inr (Num 500)"
    using h(2) by simp
  with first show ?thesis by simp
qed

section \<open>Properties of the client\<close>

lemma digest_Inr:
  assumes "digest env algorithm payload = Inr signature"
  shows "\<exists>a h. algorithm = Str a \<and> createHash env a = Some h
           \<and> signature = base64 (h (case payload of None \<Rightarrow> [] | Some b \<Rightarrow> b))"
  using assms by (auto simp: digest_def split: jsval.splits option.splits)

lemma request_Inr:
  assumes "request env Config proto ps = Inr s"
  shows "\<exists>payload a h sig.
           read env (Config_get Config ''payload'') = Inr payload
           \<and> Config_get Config ''digest'' = Str a \<and> createHash env a = Some h
           \<and> Signature_sign env ''sha256''
                (ps\<lparr> p_payload := payload,
                     p_headers := js_set (p_headers ps) ''digest''
                       (Str (a @ ''='' @ base64 (h (case payload of None \<Rightarrow> [] | Some b \<Rightarrow> b)))) \<rparr>)
                (Config_get Config ''secret'') = Inr sig
           \<and> s = \<lparr> via = proto,
                    options = ps\<lparr> p_payload := payload,
                      p_headers := js_set (js_set (p_headers ps) ''digest''
                          (Str (a @ ''='' @ base64 (h (case payload of None \<Rightarrow> [] | Some b \<Rightarrow> b)))))
                        ''authorization''
                          (Str (''Rapid7-HMAC-V1-SHA256 '' @ base64 (String_js (p_identity ps) @ '':'' @ sig))) \<rparr>,
                    content_length = (case payload of Some b \<Rightarrow> length b | None \<Rightarrow> 0),
                    written = payload \<rparr>"
proof -
  from assms obtain payload where
    r: "read env (Config_get Config ''payload'') = Inr payload"
    by (auto simp: request_def Let_def split: sum.splits)
  from assms r obtain signature where
    d: "digest env (Config_get Config ''digest'') payload = Inr signature"
    by (auto simp: request_def Let_def split: sum.splits)
  from digest_Inr [OF d] obtain a h where
    a: "Config_get Config ''digest'' = Str a" "createHash env a = Some h"
       "signature = base64 (h (case payload of None \<Rightarrow> [] | Some b \<Rightarrow> b))"
    by blast
  let ?ps2 = "ps\<lparr> p_payload := payload,
                 p_headers := js_set (p_headers ps) ''digest'' (Str (a @ ''='' @ signature)) \<rparr>"
  from assms r d a(1) obtain sig where
    g: "Signature_sign env ''sha256'' ?ps2 (Config_get Config ''secret'') = Inr sig"
    by (auto simp: request_def Let_def split: sum.splits)
  from assms r d a(1) g have "s = \<lparr> via = proto,
        options = ?ps2\<lparr> p_headers := js_set (p_headers ?ps2) ''authorization''
            (Str (''Rapid7-HMAC-V1-SHA256 '' @ base64 (String_js (p_identity ?ps2) @ '':'' @ sig))) \<rparr>,
        content_length = (case payload of Some b \<Rightarrow> length b | None \<Rightarrow> 0),
        written = payload \<rparr>"
    by (simp add: request_def Let_def)
  then show ?thesis using r a g by auto
qed


lemma client_Inr:
  assumes "client env Config url = Inr s"
  shows "\<exists>payload a h sig.
           read env (Config_get Config ''payload'') = Inr payload
           \<and> Config_get Config ''digest'' = Str a \<and> createHash env a = Some h
           \<and> Signature_sign env ''sha256''
                (signing_input env Config url payload
                   (a @ ''='' @ base64 (h (case payload of None \<Rightarrow> [] | Some b \<Rightarrow> b))))
                (Config_get Config ''secret'') = Inr sig
           \<and> written s = payload
           \<and> content_length s = (case payload of Some b \<Rightarrow> length b | None \<Rightarrow> 0)
           \<and> options s = (signing_input env Config url payload
                   (a @ ''='' @ base64 (h (case payload of None \<Rightarrow> [] | Some b \<Rightarrow> b))))
                 \<lparr> p_headers := js_set
                     (p_headers (signing_input env Config url payload
                        (a @ ''='' @ base64 (h (case payload of None \<Rightarrow> [] | Some b \<Rightarrow> b)))))
                     ''authorization''
                     (Str (''Rapid7-HMAC-V1-SHA256 ''
                        @ base64 (String_js (Config_get Config ''identity'') @ '':'' @ sig))) \<rparr>"
proof -
  from assms obtain proto where
    "request env Config proto (client_params env Config url) = Inr s"
    by (simp add: client_def Let_def)
  from request_Inr [OF this] show ?thesis
    by (auto simp: signing_input_def client_params_def Let_def)
qed

lemma digest_Str:
  "createHash env a = Some h \<Longrightarrow>
     digest env (Str a) payload = Inr (base64 (h (case payload of None \<Rightarrow> [] | Some b \<Rightarrow> b)))"
  by (cases payload) (simp_all add: digest_def)

lemma signing_input_headers:
  "p_headers (signing_input env Config url payload dv) =
     [(''date'', Str (Date_toString env (now env))),
      (''host'', host (URL_parse env url)),
      (''user-agent'', Str (''node-'' @ process_version env @ ''/turnstile-tester'')),
      (''digest'', Str dv)]"
  by (simp add: signing_input_def client_params_def Let_def js_set_append header_names_not_index)

lemma signing_input_date:
  "p_date (signing_input env Config url payload dv) = now env - now env mod 1000"
  by (simp add: signing_input_def client_params_def Let_def setMilliseconds_def)


lemma dec_int_sample: "dec_int 1478142187 = ''1478142187''"
  by (simp add: dec_int_def dec_nat.simps digit_char_def char_of_eq_iff)

lemma Config_get_sample:
  "Config_get sample_config ''payload'' = Str ''hi''"
  "Config_get sample_config ''digest'' = Str ''sha256''"
  "Config_get sample_config ''identity'' = Str ''alice''"
  "Config_get sample_config ''secret'' = Str ''s3cret''"
  "Config_get sample_config ''method'' = Str ''POST''"
  by (simp_all add: Config_get_def sample_config_def)

lemma client_sample:
  "client sample_environment sample_config ''http://localhost:9300/widgets'' = Inr sample_sent"
  by (simp add: client_def request_def read_def digest_def client_params_def Let_def
      Config_get_sample sample_environment_def sample_url_def setMilliseconds_def
      b64_char_def b64_alphabet_def unit_of_def dec_int_sample sample_sent_def
      js_set_append header_names_not_index)

lemma js_get_js_set_other: "k' \<noteq> k \<Longrightarrow> js_get (js_set obj k v) k' = js_get obj k'"
  by (simp add: js_get_def map_of_js_set)

lemma js_get_js_set_same: "js_get (js_set obj k v) k = v"
  by (simp add: js_get_def map_of_js_set)

text \<open>
  Claim C4, as the code has it. A request the client sends carries the headers \<open>date\<close>,
  \<open>host\<close>, \<open>user-agent\<close>, \<open>digest\<close> and \<open>authorization\<close>, and the value of
  \<open>authorization\<close> is the scheme token \<open>Rapid7-HMAC-V1-SHA256\<close>, a space, and the base64
  encoding of the identity and the signature joined by a colon.
\<close>

theorem signed_request_headers:
  assumes "client env Config url = Inr s"
  shows "map fst (p_headers (options s)) = [''date'', ''host'', ''user-agent'', ''digest'', ''authorization'']
         \<and> (\<exists>ps sig.
               Signature_sign env ''sha256'' ps (Config_get Config ''secret'') = Inr sig
               \<and> sent_header ''authorization'' s =
                   Str (''Rapid7-HMAC-V1-SHA256 ''
                        @ base64 (String_js (Config_get Config ''identity'') @ '':'' @ sig)))"
proof -
  from client_Inr [OF assms] obtain payload a h sig where
    g: "Signature_sign env ''sha256''
          (signing_input env Config url payload
             (a @ ''='' @ base64 (h (case payload of None \<Rightarrow> [] | Some b \<Rightarrow> b))))
          (Config_get Config ''secret'') = Inr sig" and
    o: "options s = (signing_input env Config url payload
             (a @ ''='' @ base64 (h (case payload of None \<Rightarrow> [] | Some b \<Rightarrow> b))))
           \<lparr> p_headers := js_set
               (p_headers (signing_input env Config url payload
                  (a @ ''='' @ base64 (h (case payload of None \<Rightarrow> [] | Some b \<Rightarrow> b)))))
               ''authorization''
               (Str (''Rapid7-HMAC-V1-SHA256 ''
                  @ base64 (String_js (Config_get Config ''identity'') @ '':'' @ sig))) \<rparr>"
    by blast
  have "map fst (p_headers (options s)) = [''date'', ''host'', ''user-agent'', ''digest'', ''authorization'']"
    by (simp add: o signing_input_headers js_set_append header_names_not_index)
  moreover have "sent_header ''authorization'' s =
      Str (''Rapid7-HMAC-V1-SHA256 '' @ base64 (String_js (Config_get Config ''identity'') @ '':'' @ sig))"
    by (simp add: sent_header_def o js_get_js_set_same)
  ultimately show ?thesis using g by blast
qed

theorem signed_request_headers_witness:
  "client sample_environment sample_config ''http://localhost:9300/widgets'' = Inr sample_sent
   \<and> map fst (p_headers (options sample_sent))
       = [''date'', ''host'', ''user-agent'', ''digest'', ''authorization'']
   \<and> sent_header ''authorization'' sample_sent
       = Str (''Rapid7-HMAC-V1-SHA256 '' @ base64 ''alice:c2lnbg=='')"
proof -
  note s = client_sample
  note t = signed_request_headers [OF s]
  from t [THEN conjunct2] obtain ps sig where
    g: "Signature_sign sample_environment ''sha256'' ps (Config_get sample_config ''secret'') = Inr sig
        \<and> sent_header ''authorization'' sample_sent =
          Str (''Rapid7-HMAC-V1-SHA256 ''
               @ base64 (String_js (Config_get sample_config ''identity'') @ '':'' @ sig))"
    by (elim exE)
  note h = t [THEN conjunct1] g [THEN conjunct1] g [THEN conjunct2]
  have "sig = ''c2lnbg==''" using h(2) by (simp add: sample_environment_def)
  then have "sent_header ''authorization'' sample_sent
      = Str (''Rapid7-HMAC-V1-SHA256 '' @ base64 ''alice:c2lnbg=='')"
    using h(3) by (simp add: Config_get_sample del: base64.simps)
  then show ?thesis using s h(1) by (simp del: base64.simps)
qed

theorem signed_request_headers_counterexample:
  "map_sum id (sent_header ''authorization'')
     (client sample_environment sample_config ''http://localhost:9300/widgets'')
     = Inr (Str ''Rapid7-HMAC-V1-SHA256 YWxpY2U6YzJsbmJnPT0='')
   \<and> Signature_sign sample_environment ''sha256''
        (signing_input sample_environment sample_config ''http://localhost:9300/widgets''
           (Some ''hi'') ''sha256=0Q=='')
        (Config_get sample_config ''secret'') = Inr ''c2lnbg==''
   \<and> Config_get sample_config ''identity'' = Str ''alice''
   \<and> Str ''Rapid7-HMAC-V1-SHA256 YWxpY2U6YzJsbmJnPT0='' \<noteq> Str ''Rapid7-HMAC-V1-SHA256 alice:c2lnbg==''"
proof -
  have "map_sum id (sent_header ''authorization'')
     (client sample_environment sample_config ''http://localhost:9300/widgets'')
     = Inr (Str ''Rapid7-HMAC-V1-SHA256 YWxpY2U6YzJsbmJnPT0='')"
    unfolding client_sample by (simp add: sent_header_def sample_sent_def js_get_def)
  moreover have "Signature_sign sample_environment ''sha256''
        (signing_input sample_environment sample_config ''http://localhost:9300/widgets''
           (Some ''hi'') ''sha256=0Q=='')
        (Config_get sample_config ''secret'') = Inr ''c2lnbg==''"
    by (simp add: sample_environment_def)
  ultimately show ?thesis by (simp add: Config_get_sample)
qed

lemma client_sends:
  assumes "read env (Config_get Config ''payload'') = Inr payload"
      and "Config_get Config ''digest'' = Str a" and "createHash env a = Some h"
      and "Signature_sign env ''sha256''
             (signing_input env Config url payload
                (a @ ''='' @ base64 (h (case payload of None \<Rightarrow> [] | Some b \<Rightarrow> b))))
             (Config_get Config ''secret'') = Inr sig"
  shows "\<exists>s. client env Config url = Inr s \<and> written s = payload
           \<and> sent_header ''digest'' s
               = Str (a @ ''='' @ base64 (h (case payload of None \<Rightarrow> [] | Some b \<Rightarrow> b)))"
  using assms(1,2,4) digest_Str [OF assms(3), of payload]
  by (simp add: client_def request_def Let_def signing_input_def sent_header_def
      js_get_js_set_other js_get_js_set_same)

text \<open>
  Claim C5. When the client sends a request, the digest algorithm is a name the hash
  provider accepts, and the \<open>digest\<close> header is that name, an equals sign and the base64
  encoding of the hash of the body written; with no payload, or an empty one, it is the
  hash of the empty input. And the client does send such a request whenever the payload
  can be read, the provider accepts the algorithm name and signing succeeds.
\<close>

theorem digest_header:
  "(client env Config url = Inr s \<longrightarrow>
      (\<exists>a h. Config_get Config ''digest'' = Str a \<and> createHash env a = Some h
           \<and> read env (Config_get Config ''payload'') = Inr (written s)
           \<and> sent_header ''digest'' s
               = Str (a @ ''='' @ base64 (h (case written s of None \<Rightarrow> [] | Some b \<Rightarrow> b)))
           \<and> (written s = None \<or> written s = Some [] \<longrightarrow>
                 sent_header ''digest'' s = Str (a @ ''='' @ base64 (h [])))))
   \<and> (read env (Config_get Config ''payload'') = Inr payload
        \<and> Config_get Config ''digest'' = Str a' \<and> createHash env a' = Some h'
        \<and> Signature_sign env ''sha256''
             (signing_input env Config url payload
                (a' @ ''='' @ base64 (h' (case payload of None \<Rightarrow> [] | Some b \<Rightarrow> b))))
             (Config_get Config ''secret'') = Inr sig \<longrightarrow>
        (\<exists>s'. client env Config url = Inr s' \<and> written s' = payload
           \<and> sent_header ''digest'' s'
               = Str (a' @ ''='' @ base64 (h' (case payload of None \<Rightarrow> [] | Some b \<Rightarrow> b)))))"
proof (intro conjI impI)
  assume c: "client env Config url = Inr s"
  from client_Inr [OF c] obtain payload a h sig where
    r: "read env (Config_get Config ''payload'') = Inr payload" and
    a: "Config_get Config ''digest'' = Str a" "createHash env a = Some h" and
    w: "written s = payload" and
    o: "options s = (signing_input env Config url payload
             (a @ ''='' @ base64 (h (case payload of None \<Rightarrow> [] | Some b \<Rightarrow> b))))
           \<lparr> p_headers := js_set
               (p_headers (signing_input env Config url payload
                  (a @ ''='' @ base64 (h (case payload of None \<Rightarrow> [] | Some b \<Rightarrow> b)))))
               ''authorization''
               (Str (''Rapid7-HMAC-V1-SHA256 ''
                  @ base64 (String_js (Config_get Config ''identity'') @ '':'' @ sig))) \<rparr>"
    by blast
  have d: "sent_header ''digest'' s
      = Str (a @ ''='' @ base64 (h (case written s of None \<Rightarrow> [] | Some b \<Rightarrow> b)))"
    by (simp add: sent_header_def o w signing_input_headers js_get_def map_of_js_set)
  then have e: "written s = None \<or> written s = Some [] \<longrightarrow>
      sent_header ''digest'' s = Str (a @ ''='' @ base64 (h []))"
    by auto
  show "\<exists>a h. Config_get Config ''digest'' = Str a \<and> createHash env a = Some h
           \<and> read env (Config_get Config ''payload'') = Inr (written s)
           \<and> sent_header ''digest'' s
               = Str (a @ ''='' @ base64 (h (case written s of None \<Rightarrow> [] | Some b \<Rightarrow> b)))
           \<and> (written s = None \<or> written s = Some [] \<longrightarrow>
                 sent_header ''digest'' s = Str (a @ ''='' @ base64 (h [])))"
    using r a w d e by (intro exI [of _ a] exI [of _ h]) simp
next
  assume "read env (Config_get Config ''payload'') = Inr payload
        \<and> Config_get Config ''digest'' = Str a' \<and> createHash env a' = Some h'
        \<and> Signature_sign env ''sha256''
             (signing_input env Config url payload
                (a' @ ''='' @ base64 (h' (case payload of None \<Rightarrow> [] | Some b \<Rightarrow> b))))
             (Config_get Config ''secret'') = Inr sig"
  then show "\<exists>s'. client env Config url = Inr s' \<and> written s' = payload
           \<and> sent_header ''digest'' s'
               = Str (a' @ ''='' @ base64 (h' (case payload of None \<Rightarrow> [] | Some b \<Rightarrow> b)))"
    using client_sends [of env Config payload a' h' url sig] by simp
qed

lemma Config_get_bare:
  "Config_get (Obj [(''digest'', Str ''sha256''), (''identity'', Str ''alice'')]) ''payload'' = Undefined"
  "Config_get (Obj [(''digest'', Str ''sha256''), (''identity'', Str ''alice'')]) ''digest'' = Str ''sha256''"
  "Config_get (Obj [(''digest'', Str ''sha256''), (''identity'', Str ''alice'')]) ''secret'' = Undefined"
  by (simp_all add: Config_get_def)

theorem digest_header_witness:
  "client sample_environment sample_config ''http://localhost:9300/widgets'' = Inr sample_sent
   \<and> written sample_sent = Some ''hi''
   \<and> sent_header ''digest'' sample_sent = Str ''sha256=0Q==''
   \<and> read sample_environment
        (Config_get (Obj [(''digest'', Str ''sha256''), (''identity'', Str ''alice'')]) ''payload'')
       = Inr None
   \<and> (\<exists>s. client sample_environment (Obj [(''digest'', Str ''sha256''), (''identity'', Str ''alice'')])
              ''http://localhost:9300/widgets'' = Inr s
          \<and> written s = None
          \<and> sent_header ''digest'' s = Str ''sha256=AA=='')"
proof -
  let ?bare = "Obj [(''digest'', Str ''sha256''), (''identity'', Str ''alice'')]"
  let ?url = "''http://localhost:9300/widgets''"
  let ?h = "\<lambda>d. [char_of (sum_list (map unit_of d))]"
  note s = client_sample
  note t = digest_header [where env = sample_environment and Config = sample_config
      and url = ?url and s = sample_sent]
  from t [THEN conjunct1] s obtain a h where
    g: "Config_get sample_config ''digest'' = Str a \<and> createHash sample_environment a = Some h
       \<and> read sample_environment (Config_get sample_config ''payload'') = Inr (written sample_sent)
       \<and> sent_header ''digest'' sample_sent
          = Str (a @ ''='' @ base64 (h (case written sample_sent of None \<Rightarrow> [] | Some b \<Rightarrow> b)))
       \<and> (written sample_sent = None \<or> written sample_sent = Some [] \<longrightarrow>
             sent_header ''digest'' sample_sent = Str (a @ ''='' @ base64 (h [])))"
    by (elim impE exE)
  note h = g [THEN conjunct1] g [THEN conjunct2, THEN conjunct1]
    g [THEN conjunct2, THEN conjunct2, THEN conjunct2, THEN conjunct1]
  have w: "written sample_sent = Some ''hi''" by (simp add: sample_sent_def)
  have a: "a = ''sha256''" using h(1) by (simp add: Config_get_sample)
  have "h = ?h"
    using h(2) by (simp add: a sample_environment_def)
  then have first: "sent_header ''digest'' sample_sent = Str ''sha256=0Q==''"
    using h(3) by (simp add: a w b64_char_def b64_alphabet_def unit_of_def)
  have r: "read sample_environment (Config_get ?bare ''payload'') = Inr None"
    by (simp add: Config_get_bare read_def)
  have c: "createHash sample_environment ''sha256'' = Some ?h"
    by (simp add: sample_environment_def)
  have g2: "Signature_sign sample_environment ''sha256''
             (signing_input sample_environment ?bare ?url None
                (''sha256'' @ ''='' @ base64 (?h (case None of None \<Rightarrow> [] | Some b \<Rightarrow> b))))
             (Config_get ?bare ''secret'') = Inr ''c2lnbg==''"
    by (simp add: sample_environment_def)
  note u = digest_header [where env = sample_environment and Config = ?bare
      and url = ?url and payload = None and a' = "''sha256''" and h' = ?h and sig = "''c2lnbg==''",
      THEN conjunct2, rule_format, OF conjI [OF r conjI [OF Config_get_bare(2) conjI [OF c g2]]]]
  then obtain s where
    k: "client sample_environment ?bare ?url = Inr s \<and> written s = None
        \<and> sent_header ''digest'' s
            = Str (''sha256'' @ ''='' @ base64 (?h (case None of None \<Rightarrow> [] | Some b \<Rightarrow> b)))"
    by (elim exE)
  have "sent_header ''digest'' s = Str ''sha256=AA==''"
    using k [THEN conjunct2, THEN conjunct2]
    by (simp add: b64_char_def b64_alphabet_def unit_of_def)
  then have second: "\<exists>s. client sample_environment ?bare ?url = Inr s \<and> written s = None
          \<and> sent_header ''digest'' s = Str ''sha256=AA==''"
    using k by (intro exI [of _ s]) simp
  show ?thesis using s w first r second by simp
qed

text \<open>
  Claim C10. The date in the parameters handed to the signature class is the current
  date with its milliseconds set to zero, while the \<open>date\<close> header, in those parameters
  and in the request that is sent, is the string form of the date as read from the
  clock. The two lie in the same second and differ by the milliseconds of the clock.
\<close>

theorem signed_date:
  "p_date (client_params env Config url) = now env - now env mod 1000
   \<and> p_date (client_params env Config url) mod 1000 = 0
   \<and> p_date (client_params env Config url) div 1000 = now env div 1000
   \<and> (p_date (client_params env Config url) = now env) = (now env mod 1000 = 0)
   \<and> js_get (p_headers (client_params env Config url)) ''date'' = Str (Date_toString env (now env))
   \<and> (client env Config url = Inr s \<longrightarrow>
        (\<exists>payload dv sig.
            Signature_sign env ''sha256'' (signing_input env Config url payload dv)
              (Config_get Config ''secret'') = Inr sig
            \<and> p_date (signing_input env Config url payload dv) = now env - now env mod 1000
            \<and> js_get (p_headers (signing_input env Config url payload dv)) ''date''
                = Str (Date_toString env (now env))
            \<and> sent_header ''authorization'' s =
                Str (''Rapid7-HMAC-V1-SHA256 ''
                     @ base64 (String_js (Config_get Config ''identity'') @ '':'' @ sig))
            \<and> sent_header ''date'' s = Str (Date_toString env (now env))
            \<and> p_date (options s) = now env - now env mod 1000))"
proof (intro conjI impI)
  show d: "p_date (client_params env Config url) = now env - now env mod 1000"
    by (simp add: client_params_def Let_def setMilliseconds_def)
  show "p_date (client_params env Config url) mod 1000 = 0"
    unfolding d by (simp add: minus_mod_eq_mult_div)
  show "p_date (client_params env Config url) div 1000 = now env div 1000"
    unfolding d by (simp add: minus_mod_eq_mult_div)
  show "(p_date (client_params env Config url) = now env) = (now env mod 1000 = 0)"
    unfolding d by auto
  show "js_get (p_headers (client_params env Config url)) ''date'' = Str (Date_toString env (now env))"
    by (simp add: client_params_def Let_def js_get_def)
next
  assume c: "client env Config url = Inr s"
  from client_Inr [OF c] obtain payload a h sig where
    g: "Signature_sign env ''sha256''
          (signing_input env Config url payload
             (a @ ''='' @ base64 (h (case payload of None \<Rightarrow> [] | Some b \<Rightarrow> b))))
          (Config_get Config ''secret'') = Inr sig" and
    o: "options s = (signing_input env Config url payload
             (a @ ''='' @ base64 (h (case payload of None \<Rightarrow> [] | Some b \<Rightarrow> b))))
           \<lparr> p_headers := js_set
               (p_headers (signing_input env Config url payload
                  (a @ ''='' @ base64 (h (case payload of None \<Rightarrow> [] | Some b \<Rightarrow> b)))))
               ''authorization''
               (Str (''Rapid7-HMAC-V1-SHA256 ''
                  @ base64 (String_js (Config_get Config ''identity'') @ '':'' @ sig))) \<rparr>"
    by blast
  let ?dv = "a @ ''='' @ base64 (h (case payload of None \<Rightarrow> [] | Some b \<Rightarrow> b))"
  show "\<exists>payload dv sig.
            Signature_sign env ''sha256'' (signing_input env Config url payload dv)
              (Config_get Config ''secret'') = Inr sig
            \<and> p_date (signing_input env Config url payload dv) = now env - now env mod 1000
            \<and> js_get (p_headers (signing_input env Config url payload dv)) ''date''
                = Str (Date_toString env (now env))
            \<and> sent_header ''authorization'' s =
                Str (''Rapid7-HMAC-V1-SHA256 ''
                     @ base64 (String_js (Config_get Config ''identity'') @ '':'' @ sig))
            \<and> sent_header ''date'' s = Str (Date_toString env (now env))
            \<and> p_date (options s) = now env - now env mod 1000"
  proof (rule exI [of _ payload], rule exI [of _ ?dv], rule exI [of _ sig], intro conjI)
    show "Signature_sign env ''sha256'' (signing_input env Config url payload ?dv)
            (Config_get Config ''secret'') = Inr sig"
      by (rule g)
    show "p_date (signing_input env Config url payload ?dv) = now env - now env mod 1000"
      by (rule signing_input_date)
    show "js_get (p_headers (signing_input env Config url payload ?dv)) ''date''
            = Str (Date_toString env (now env))"
      by (simp add: signing_input_headers js_get_def)
    show "sent_header ''authorization'' s =
        Str (''Rapid7-HMAC-V1-SHA256 ''
             @ base64 (String_js (Config_get Config ''identity'') @ '':'' @ sig))"
      by (simp add: sent_header_def o js_get_js_set_same)
    show "sent_header ''date'' s = Str (Date_toString env (now env))"
      by (simp add: sent_header_def o signing_input_headers js_get_def map_of_js_set)
    show "p_date (options s) = now env - now env mod 1000"
      by (simp add: o signing_input_date)
  qed
qed

theorem signed_date_witness:
  "client sample_environment sample_config ''http://localhost:9300/widgets'' = Inr sample_sent
   \<and> now sample_environment = 1478142187123
   \<and> p_date (options sample_sent) = 1478142187000
   \<and> sent_header ''date'' sample_sent
       = Str (Date_toString sample_environment 1478142187123)"
proof -
  note s = client_sample
  have n: "now sample_environment = 1478142187123"
    by (simp add: sample_environment_def)
  note t = signed_date [where env = sample_environment and Config = sample_config
      and url = "''http://localhost:9300/widgets''" and s = sample_sent]
  from t s obtain payload dv sig where
    g: "Signature_sign sample_environment ''sha256''
          (signing_input sample_environment sample_config ''http://localhost:9300/widgets'' payload dv)
          (Config_get sample_config ''secret'') = Inr sig
        \<and> p_date (signing_input sample_environment sample_config ''http://localhost:9300/widgets'' payload dv)
            = now sample_environment - now sample_environment mod 1000
        \<and> js_get (p_headers (signing_input sample_environment sample_config
              ''http://localhost:9300/widgets'' payload dv)) ''date''
            = Str (Date_toString sample_environment (now sample_environment))
        \<and> sent_header ''authorization'' sample_sent =
            Str (''Rapid7-HMAC-V1-SHA256 ''
                 @ base64 (String_js (Config_get sample_config ''identity'') @ '':'' @ sig))
        \<and> sent_header ''date'' sample_sent
            = Str (Date_toString sample_environment (now sample_environment))
        \<and> p_date (options sample_sent) = now sample_environment - now sample_environment mod 1000"
    by blast
  then have "sent_header ''date'' sample_sent = Str (Date_toString sample_environment 1478142187123)"
    and "p_date (options sample_sent) = 1478142187000"
    by (simp_all add: n del: base64.simps)
  then show ?thesis using s n by simp
qed

section \<open>Properties of the server\<close>

text \<open>
  Claim C2. The script attaches either the correlation stage, the authentication stage
  and the forwarding stage, in this order, or the authentication stage and the
  forwarding stage, in this order; each stage receives its own configuration group. The
  correlation stage is attached exactly when \<open>correlation:enable\<close> is truthy; for a
  boolean flag, when it is \<open>true\<close>. The other two stages are attached whatever the
  configuration says.
\<close>

theorem server_stages:
  "stages (server Config) =
     (if truthy (Config_get Config ''correlation:enable'')
      then [Correlation (Config_get Config ''correlation''),
            Authn (Config_get Config ''local''), Forward (Config_get Config ''service'')]
      else [Authn (Config_get Config ''local''), Forward (Config_get Config ''service'')])
   \<and> (Config_get Config ''correlation:enable'' = Boolean b \<longrightarrow>
        (Correlation (Config_get Config ''correlation'') \<in> set (stages (server Config))) = b)"
  by (auto simp: server_def use_def Let_def)

theorem server_stages_witness:
  "Config_get defaults ''correlation:enable'' = Boolean True
   \<and> stages (server defaults) =
       [Correlation (Obj [(''enable'', Boolean True), (''header'', Str ''X-Request-Identifier'')]),
        Authn (Config_get defaults ''local''), Forward (Config_get defaults ''service'')]
   \<and> Config_get (Obj [(''correlation'', Obj [(''enable'', Boolean False)])]) ''correlation:enable''
       = Boolean False
   \<and> stages (server (Obj [(''correlation'', Obj [(''enable'', Boolean False)])]))
       = [Authn Undefined, Forward Undefined]"
proof -
  have e: "Config_get defaults ''correlation:enable'' = Boolean True"
    "Config_get defaults ''correlation''
       = Obj [(''enable'', Boolean True), (''header'', Str ''X-Request-Identifier'')]"
    by (simp_all add: Config_get_def defaults_def)
  let ?off = "Obj [(''correlation'', Obj [(''enable'', Boolean False)])]"
  have f: "Config_get ?off ''correlation:enable'' = Boolean False"
    "Config_get ?off ''local'' = Undefined" "Config_get ?off ''service'' = Undefined"
    by (simp_all add: Config_get_def)
  show ?thesis
    using server_stages [of defaults True] server_stages [of ?off False] e f by simp
qed


end
